theory Spec2Isabelle
  imports Complex_Main "HOL-Library.Log_Nat" "HOL-Library.Multiset"
begin

section \<open>JavaScript numbers\<close>

text \<open>
  Every number of the storefront (prices, quantities, subtotal, tax, shipping, discount,
  total) is a JavaScript \<^verbatim>\<open>Number\<close>: an IEEE 754 binary64 value. A finite value is
  kept as the rational it denotes; the two infinities and NaN are constructors of their
  own. The two zeros are one value \<open>Num 0\<close>: the program never divides by a computed
  value and never inspects the sign of a zero, and \<^verbatim>\<open>>\<close>, \<^verbatim>\<open>===\<close>, \<^verbatim>\<open>toFixed\<close> and
  \<^verbatim>\<open>JSON.stringify\<close> do not tell them apart.
\<close>

datatype number = Num rat | PInf | NInf | NaN

text \<open>\<open>ilog2 x\<close> is the binary exponent of a positive rational: \<open>2^e \<le> x < 2^(e+1)\<close>.\<close>

definition ilog2 :: "rat \<Rightarrow> int" where
  "ilog2 x =
     (if 1 \<le> x then bitlen \<lfloor>x\<rfloor> - 1
      else (let b = bitlen \<lfloor>1 / x\<rfloor> in if x = 1 / 2 ^ nat (b - 1) then 1 - b else - b))"

definition round_half_even :: "rat \<Rightarrow> int" where
  "round_half_even q =
     (let f = \<lfloor>q\<rfloor>; r = q - of_int f
      in if r < 1 / 2 then f
         else if 1 / 2 < r then f + 1
         else if even f then f else f + 1)"

text \<open>
  The spacing of the binary64 values around \<open>x\<close>: 53 significant bits, and the fixed
  spacing \<open>2^-1074\<close> of the subnormal range below \<open>2^-1022\<close>.
\<close>

definition ulp :: "rat \<Rightarrow> rat" where
  "ulp x = 2 powi (max (ilog2 \<bar>x\<bar>) (- 1022) - 52)"

text \<open>
  Rounding of an exact result to the nearest binary64 value, ties to the even
  significand; a result that rounds to \<open>2^1024\<close> or beyond is an infinity.
\<close>

definition rnd :: "rat \<Rightarrow> number" where
  "rnd x =
     (if x = 0 then Num 0
      else (let u = ulp x; y = of_int (round_half_even (x / u)) * u
            in if 2 ^ 1024 \<le> \<bar>y\<bar> then (if 0 < x then PInf else NInf) else Num y))"

text \<open>A decimal literal of the source denotes the binary64 value nearest to it.\<close>

definition lit :: "rat \<Rightarrow> number" where
  "lit r = rnd r"

text \<open>The operators \<^verbatim>\<open>+\<close>, \<^verbatim>\<open>-\<close>, \<^verbatim>\<open>*\<close>, \<^verbatim>\<open>/\<close> and \<^verbatim>\<open>>\<close> on numbers.\<close>

fun num_add :: "number \<Rightarrow> number \<Rightarrow> number" where
  "num_add (Num a) (Num b) = rnd (a + b)"
| "num_add NaN _ = NaN"
| "num_add _ NaN = NaN"
| "num_add PInf NInf = NaN"
| "num_add NInf PInf = NaN"
| "num_add PInf _ = PInf"
| "num_add _ PInf = PInf"
| "num_add NInf _ = NInf"
| "num_add _ NInf = NInf"

fun num_neg :: "number \<Rightarrow> number" where
  "num_neg (Num a) = Num (- a)"
| "num_neg PInf = NInf"
| "num_neg NInf = PInf"
| "num_neg NaN = NaN"

definition num_sub :: "number \<Rightarrow> number \<Rightarrow> number" where
  "num_sub a b = num_add a (num_neg b)"

text \<open>The sign of a number: \<open>1\<close>, \<open>0\<close> or \<open>-1\<close>; NaN has none.\<close>

fun num_sgn :: "number \<Rightarrow> int option" where
  "num_sgn (Num a) = Some (if 0 < a then 1 else if a < 0 then - 1 else 0)"
| "num_sgn PInf = Some 1"
| "num_sgn NInf = Some (- 1)"
| "num_sgn NaN = None"

definition inf_of_sign :: "int \<Rightarrow> number" where
  "inf_of_sign s = (if s = 0 then NaN else if 0 < s then PInf else NInf)"

fun num_mul :: "number \<Rightarrow> number \<Rightarrow> number" where
  "num_mul (Num a) (Num b) = rnd (a * b)"
| "num_mul a b =
     (case (num_sgn a, num_sgn b) of
        (Some s, Some t) \<Rightarrow> inf_of_sign (s * t)
      | _ \<Rightarrow> NaN)"

text \<open>
  Division; a zero divisor counts as the positive zero (the program divides by the
  literal \<^verbatim>\<open>100\<close> only).
\<close>

fun num_div :: "number \<Rightarrow> number \<Rightarrow> number" where
  "num_div (Num a) (Num b) =
     (if b = 0 then (if a = 0 then NaN else if 0 < a then PInf else NInf) else rnd (a / b))"
| "num_div NaN _ = NaN"
| "num_div _ NaN = NaN"
| "num_div (Num a) _ = Num 0"
| "num_div PInf (Num b) = (if b < 0 then NInf else PInf)"
| "num_div NInf (Num b) = (if b < 0 then PInf else NInf)"
| "num_div _ _ = NaN"

fun num_gt :: "number \<Rightarrow> number \<Rightarrow> bool" where
  "num_gt (Num a) (Num b) = (b < a)"
| "num_gt NaN _ = False"
| "num_gt _ NaN = False"
| "num_gt PInf b = (b \<noteq> PInf)"
| "num_gt NInf _ = False"
| "num_gt (Num a) b = (b = NInf)"


section \<open>JavaScript strings\<close>

text \<open>
  A string is a list of characters. The case mappings \<^verbatim>\<open>toUpperCase\<close> and
  \<^verbatim>\<open>toLowerCase\<close> are built into the language and no part of the program: each function
  that calls one of them takes it as an argument, a function from strings to strings about
  which nothing is assumed.
\<close>

text \<open>\<^verbatim>\<open>hay.startsWith(needle)\<close> and \<^verbatim>\<open>hay.includes(needle)\<close>.\<close>

fun startsWith :: "string \<Rightarrow> string \<Rightarrow> bool" where
  "startsWith _ [] = True"
| "startsWith [] (_ # _) = False"
| "startsWith (h # hay) (n # needle) = (h = n \<and> startsWith hay needle)"

fun includesStr :: "string \<Rightarrow> string \<Rightarrow> bool" where
  "includesStr [] needle = (needle = [])"
| "includesStr (h # hay) needle = (startsWith (h # hay) needle \<or> includesStr hay needle)"

section \<open>Data model\<close>

text \<open>The product schema of \<^verbatim>\<open>server.js\<close>; \<open>id'\<close> is the store-assigned \<^verbatim>\<open>_id\<close>.\<close>

record fragrance_notes =
  top :: "string list"
  heart :: "string list"
  base :: "string list"

record product =
  id' :: string
  name :: string
  brand :: string
  price :: number
  originalPrice :: "number option"
  description :: string
  category :: string
  image :: string
  rating :: number
  reviews :: number
  inStock :: bool
  size' :: string
  notes' :: fragrance_notes
  featured :: bool

text \<open>A cart entry is \<^verbatim>\<open>{ ...product, quantity }\<close>: the product's fields and a quantity.\<close>

record cart_item = product +
  quantity :: number

datatype notification_type = success | error | info

record notification =
  message :: string
  ntype :: notification_type

text \<open>
  The state of the \<^verbatim>\<open>App\<close> component that the cart and the catalog filter read and
  write, with the cart saved under the key \<^verbatim>\<open>perfume-cart\<close> of the local storage.
\<close>

record app_state =
  products :: "product list"
  filteredProducts :: "product list"
  cart :: "cart_item list"
  searchQuery :: string
  selectedCategory :: string
  notification :: "notification option"
  perfume_cart :: "cart_item list option"

section \<open>Cart management\<close>

definition saveCartToStorage :: "cart_item list \<Rightarrow> app_state \<Rightarrow> app_state" where
  "saveCartToStorage updatedCart s = s\<lparr>perfume_cart := Some updatedCart\<rparr>"

text \<open>
  \<^verbatim>\<open>showNotification\<close> sets the notification; the timer that clears it three seconds
  later is left out.
\<close>

definition showNotification :: "string \<Rightarrow> notification_type \<Rightarrow> app_state \<Rightarrow> app_state" where
  "showNotification msg t s = s\<lparr>notification := Some \<lparr>message = msg, ntype = t\<rparr>\<rparr>"

text \<open>\<^verbatim>\<open>{ ...product, quantity }\<close>\<close>

definition with_quantity :: "product \<Rightarrow> number \<Rightarrow> cart_item" where
  "with_quantity p q = product.extend p (cart_item.fields q)"

text \<open>
  \<^verbatim>\<open>addToCart(product, quantity = 1)\<close>; the quantity is \<open>None\<close> when the caller leaves
  it out.
\<close>

definition addToCart :: "product \<Rightarrow> number option \<Rightarrow> app_state \<Rightarrow> app_state" where
  "addToCart p qopt s =
     (let qty = (case qopt of None \<Rightarrow> Num 1 | Some q \<Rightarrow> q);
          existingItem = find (\<lambda>item. id' item = id' p) (cart s);
          updatedCart =
            (case existingItem of
               Some _ \<Rightarrow>
                 map (\<lambda>item. if id' item = id' p
                              then item\<lparr>quantity := num_add (quantity item) qty\<rparr>
                              else item) (cart s)
             | None \<Rightarrow> cart s @ [with_quantity p qty])
      in showNotification (name p @ '' added to cart!'') success
           (saveCartToStorage updatedCart (s\<lparr>cart := updatedCart\<rparr>)))"

text \<open>\<^verbatim>\<open>cart.reduce((total, item) => total + (item.price * item.quantity), 0)\<close>\<close>

definition getCartTotal :: "app_state \<Rightarrow> number" where
  "getCartTotal s =
     foldl (\<lambda>total item. num_add total (num_mul (price item) (quantity item))) (Num 0) (cart s)"

section \<open>Search and filter on the client\<close>

definition filterProducts ::
  "(string \<Rightarrow> string) \<Rightarrow> string \<Rightarrow> string \<Rightarrow> app_state \<Rightarrow> app_state" where
  "filterProducts toLowerCase query cat s =
     (let filtered = products s;
          filtered = (if cat \<noteq> ''all'' then filter (\<lambda>p. category p = cat) filtered
                      else filtered);
          filtered =
            (if query \<noteq> []
             then filter (\<lambda>p. includesStr (toLowerCase (name p)) (toLowerCase query) \<or>
                                includesStr (toLowerCase (brand p)) (toLowerCase query) \<or>
                                includesStr (toLowerCase (description p)) (toLowerCase query))
                    filtered
             else filtered)
      in s\<lparr>filteredProducts := filtered\<rparr>)"

section \<open>The cart page: promo codes and pricing\<close>

record promo =
  promo_discount :: number
  promo_type :: string

text \<open>
  The object \<^verbatim>\<open>promoCodes\<close>, as an association list. The key of a lookup is the result
  of \<^verbatim>\<open>toUpperCase\<close>, and no property that an object inherits has such a name.
\<close>

definition promoCodes :: "(string \<times> promo) list" where
  "promoCodes =
     [(''SAVE10'', \<lparr>promo_discount = Num 10, promo_type = ''percentage''\<rparr>),
      (''SAVE20'', \<lparr>promo_discount = Num 20, promo_type = ''percentage''\<rparr>),
      (''FIRSTORDER'', \<lparr>promo_discount = Num 15, promo_type = ''flat''\<rparr>),
      (''WELCOME'', \<lparr>promo_discount = Num 5, promo_type = ''percentage''\<rparr>)]"

text \<open>The two state variables of \<^verbatim>\<open>CartPage\<close>.\<close>

record cart_page_state =
  promoCode :: string
  appliedPromo :: "promo option"

definition initial_cart_page :: cart_page_state where
  "initial_cart_page = \<lparr>promoCode = [], appliedPromo = None\<rparr>"

definition setPromoCode :: "string \<Rightarrow> cart_page_state \<Rightarrow> cart_page_state" where
  "setPromoCode v st = st\<lparr>promoCode := v\<rparr>"

text \<open>What \<^verbatim>\<open>handleApplyPromo\<close> tells the user through \<^verbatim>\<open>alert\<close>.\<close>

datatype alert = Promo_code_applied promo | Invalid_promo_code

definition handleApplyPromo ::
  "(string \<Rightarrow> string) \<Rightarrow> cart_page_state \<Rightarrow> alert \<times> cart_page_state" where
  "handleApplyPromo toUpperCase st =
     (case map_of promoCodes (toUpperCase (promoCode st)) of
        Some pr \<Rightarrow> (Promo_code_applied pr, st\<lparr>appliedPromo := Some pr\<rparr>)
      | None \<Rightarrow> (Invalid_promo_code, st\<lparr>appliedPromo := None\<rparr>))"

text \<open>Typing a code into the input and pressing Apply.\<close>

definition applyCode ::
  "(string \<Rightarrow> string) \<Rightarrow> string \<Rightarrow> cart_page_state \<Rightarrow> cart_page_state" where
  "applyCode toUpperCase code st = snd (handleApplyPromo toUpperCase (setPromoCode code st))"

text \<open>The five amounts that \<^verbatim>\<open>CartPage\<close> computes when it renders.\<close>

record pricing =
  subtotal :: number
  tax :: number
  shipping :: number
  discount :: number
  total :: number

definition cart_subtotal :: "cart_item list \<Rightarrow> number" where
  "cart_subtotal c =
     foldl (\<lambda>sum item. num_add sum (num_mul (price item) (quantity item))) (Num 0) c"

definition promo_amount :: "number \<Rightarrow> promo option \<Rightarrow> number" where
  "promo_amount sub ap =
     (case ap of
        None \<Rightarrow> Num 0
      | Some pr \<Rightarrow>
          if promo_type pr = ''percentage''
          then num_div (num_mul sub (promo_discount pr)) (Num 100)
          else promo_discount pr)"

definition cartPricing :: "cart_item list \<Rightarrow> promo option \<Rightarrow> pricing" where
  "cartPricing c ap =
     (let sub = cart_subtotal c;
          tx = num_mul sub (lit (8 / 100));
          sh = (if num_gt sub (Num 100) then Num 0 else Num 10);
          disc = promo_amount sub ap
      in \<lparr>subtotal = sub, tax = tx, shipping = sh, discount = disc,
          total = num_sub (num_add (num_add sub tx) sh) disc\<rparr>)"

section \<open>The checkout page\<close>

record checkout_form =
  form_customerName :: string
  form_email :: string
  form_phone :: string
  form_address :: string
  form_city :: string
  form_zipCode :: string
  form_cardNumber :: string
  form_expiryDate :: string
  form_cvv :: string

record order_item =
  productId :: string
  item_name :: string
  item_price :: number
  item_quantity :: number

record order_data =
  customerName :: string
  email :: string
  phone :: string
  address :: string
  items :: "order_item list"
  totalAmount :: number

text \<open>
  \<^verbatim>\<open>parseFloat\<close> of a number converts it to its shortest decimal string and reads that
  back, which gives the same number.
\<close>

definition parseFloat :: "number \<Rightarrow> number" where
  "parseFloat x = x"

text \<open>The body that \<^verbatim>\<open>handleSubmit\<close> posts to \<^verbatim>\<open>/api/orders\<close>.\<close>

definition orderData :: "checkout_form \<Rightarrow> cart_item list \<Rightarrow> number \<Rightarrow> order_data" where
  "orderData f c cartTotal =
     \<lparr>customerName = form_customerName f,
      email = form_email f,
      phone = form_phone f,
      address = form_address f @ '', '' @ form_city f @ '', '' @ form_zipCode f,
      items = map (\<lambda>item. \<lparr>productId = id' item, item_name = name item,
                              item_price = price item, item_quantity = quantity item\<rparr>) c,
      totalAmount = parseFloat cartTotal\<rparr>"

text \<open>\<^verbatim>\<open>App\<close> renders the checkout page with \<^verbatim>\<open>cartTotal={getCartTotal()}\<close>.\<close>

definition checkoutOrder :: "checkout_form \<Rightarrow> app_state \<Rightarrow> order_data" where
  "checkoutOrder f s = orderData f (cart s) (getCartTotal s)"

section \<open>Catalog queries of the server\<close>

text \<open>\<^verbatim>\<open>Product.find({ category: req.params.category })\<close>\<close>

definition listByCategory :: "string \<Rightarrow> product list \<Rightarrow> product list" where
  "listByCategory cat catalog = filter (\<lambda>p. category p = cat) catalog"

text \<open>
  The search route hands the query to the store as a regular expression with the option
  \<^verbatim>\<open>i\<close>. The patterns modelled here are the sequences of ordinary characters and of the
  dot, which stands for any character but a line feed; a pattern with another
  metacharacter is outside this fragment, and \<open>parse_pattern\<close> gives \<open>None\<close> for it.
  How the store compares a character of the pattern with a character of the text under
  the option \<^verbatim>\<open>i\<close> is the store's affair: the comparison is the argument \<open>caseless\<close>, about
  which nothing is assumed.
\<close>

datatype atom = Literal char | AnyChar

definition metachars :: "char list" where
  "metachars = CHR 0x5C # ''^$.|?*+()[]{}''"

fun parse_pattern :: "string \<Rightarrow> atom list option" where
  "parse_pattern [] = Some []"
| "parse_pattern (c # cs) =
     (case parse_pattern cs of
        None \<Rightarrow> None
      | Some r \<Rightarrow>
          if c = CHR ''.'' then Some (AnyChar # r)
          else if c \<in> set metachars then None
          else Some (Literal c # r))"

fun atom_matches :: "(char \<Rightarrow> char \<Rightarrow> bool) \<Rightarrow> atom \<Rightarrow> char \<Rightarrow> bool" where
  "atom_matches caseless (Literal l) c = caseless l c"
| "atom_matches caseless AnyChar c = (c \<noteq> CHR 0x0A)"

fun match_here :: "(char \<Rightarrow> char \<Rightarrow> bool) \<Rightarrow> atom list \<Rightarrow> string \<Rightarrow> bool" where
  "match_here caseless [] _ = True"
| "match_here caseless (_ # _) [] = False"
| "match_here caseless (a # r) (c # cs) = (atom_matches caseless a c \<and> match_here caseless r cs)"

text \<open>An unanchored pattern matches when it matches at some position of the field.\<close>

fun regex_test :: "(char \<Rightarrow> char \<Rightarrow> bool) \<Rightarrow> atom list \<Rightarrow> string \<Rightarrow> bool" where
  "regex_test caseless r [] = match_here caseless r []"
| "regex_test caseless r (c # cs) = (match_here caseless r (c # cs) \<or> regex_test caseless r cs)"

text \<open>
  What a request for \<^verbatim>\<open>/api/products/search/\<close> followed by the query is answered with.
  Express binds a route parameter to one character at least, so the request with the
  empty query does not reach the search handler: the route \<^verbatim>\<open>/api/products/:id\<close>,
  registered before it, takes the request with \<^verbatim>\<open>id = search\<close>, \<^verbatim>\<open>findById\<close> fails to
  cast that to an object identifier, and the handler answers with status 500.
\<close>

datatype response = Products "product list" | Status_500

definition search ::
  "(char \<Rightarrow> char \<Rightarrow> bool) \<Rightarrow> string \<Rightarrow> product list \<Rightarrow> response option" where
  "search caseless query catalog =
     (if query = [] then Some Status_500
      else (case parse_pattern query of
              None \<Rightarrow> None
            | Some r \<Rightarrow>
                Some (Products
                  (filter (\<lambda>p. regex_test caseless r (name p) \<or> regex_test caseless r (brand p) \<or>
                               regex_test caseless r (description p) \<or>
                               regex_test caseless r (category p))
                     catalog))))"

section \<open>Notions used to state the properties\<close>

text \<open>
  The query, put in lower case, occurs as a substring of the field put in lower case; and
  the query occurs in the field as a substring up to the comparison of the store.
\<close>

definition occurs_lowered :: "(string \<Rightarrow> string) \<Rightarrow> string \<Rightarrow> string \<Rightarrow> bool" where
  "occurs_lowered toLowerCase q field =
     (\<exists>pre post. toLowerCase field = pre @ toLowerCase q @ post)"

definition occurs_caseless :: "(char \<Rightarrow> char \<Rightarrow> bool) \<Rightarrow> string \<Rightarrow> string \<Rightarrow> bool" where
  "occurs_caseless caseless q field =
     (\<exists>pre mid post. field = pre @ mid @ post \<and> list_all2 caseless q mid)"



text \<open>The promo states that \<^verbatim>\<open>handleApplyPromo\<close> can leave behind.\<close>

definition promo_states :: "promo option list" where
  "promo_states = None # map (\<lambda>kv. Some (snd kv)) promoCodes"

text \<open>A whole number that is not negative, and the exact value of a finite number.\<close>

fun is_whole :: "number \<Rightarrow> bool" where
  "is_whole (Num r) = (0 \<le> r \<and> r = of_int \<lfloor>r\<rfloor>)"
| "is_whole _ = False"

fun num_val :: "number \<Rightarrow> rat" where
  "num_val (Num r) = r"
| "num_val _ = 0"

definition whole_cart :: "cart_item list \<Rightarrow> bool" where
  "whole_cart c = list_all (\<lambda>item. is_whole (price item) \<and> is_whole (quantity item)) c"

text \<open>The subtotal in exact arithmetic.\<close>

definition exact_subtotal :: "cart_item list \<Rightarrow> rat" where
  "exact_subtotal c = sum_list (map (\<lambda>item. num_val (price item) * num_val (quantity item)) c)"

section \<open>Sample data\<close>

text \<open>
  What the case mappings and the comparison of the store do to text of ASCII characters:
  the 26 letters change case and every other character stays. They are applied to the
  sample data below only, which is ASCII text.
\<close>

definition lower_letters :: string where
  "lower_letters = ''abcdefghijklmnopqrstuvwxyz''"

definition upper_letters :: string where
  "upper_letters = ''ABCDEFGHIJKLMNOPQRSTUVWXYZ''"

definition ascii_toUpperCase :: "string \<Rightarrow> string" where
  "ascii_toUpperCase s =
     map (\<lambda>c. case map_of (zip lower_letters upper_letters) c of Some u \<Rightarrow> u | None \<Rightarrow> c) s"

definition ascii_toLowerCase :: "string \<Rightarrow> string" where
  "ascii_toLowerCase s =
     map (\<lambda>c. case map_of (zip upper_letters lower_letters) c of Some l \<Rightarrow> l | None \<Rightarrow> c) s"

definition ascii_caseless :: "char \<Rightarrow> char \<Rightarrow> bool" where
  "ascii_caseless l c = (ascii_toLowerCase [l] = ascii_toLowerCase [c])"

text \<open>
  A product with the given identifier, name, brand, description, category and price, and
  the defaults of the schema elsewhere.
\<close>

definition sample_product ::
  "string \<Rightarrow> string \<Rightarrow> string \<Rightarrow> string \<Rightarrow> string \<Rightarrow> number \<Rightarrow> product" where
  "sample_product i n b d c pr =
     \<lparr>id' = i, name = n, brand = b, price = pr, originalPrice = None, description = d,
      category = c, image = ''perfume.jpg'', rating = lit (45 / 10), reviews = Num 0,
      inStock = True, size' = ''100ml'', notes' = \<lparr>top = [], heart = [], base = []\<rparr>,
      featured = False\<rparr>"

text \<open>Sample products, priced as four products of the seed catalog are.\<close>

definition royal_oud :: product where
  "royal_oud = sample_product ''p1'' ''Royal OUD'' ''Tihamis''
     ''A sophisticated blend of dark florals and woody notes'' ''woody'' (lit 1600)"

definition citrus_dream :: product where
  "citrus_dream = sample_product ''p2'' ''Citrus Dream'' ''Fresh Essence''
     ''A refreshing citrus fragrance'' ''fresh'' (lit (6499 / 100))"

definition midnight_rose :: product where
  "midnight_rose = sample_product ''p3'' ''Midnight Rose'' ''Fleur de Paris''
     ''An enchanting masterpiece with a hint of spice'' ''floral'' (lit (11999 / 100))"

definition ocean_breeze :: product where
  "ocean_breeze = sample_product ''p4'' ''Ocean Breeze'' ''Aqua Vitae''
     ''Feel the refreshing ocean spray'' ''fresh'' (lit (5499 / 100))"

definition rose_sample :: product where
  "rose_sample = sample_product ''p5'' ''Rose'' ''Bloom'' ''Soft'' ''floral'' (Num 10)"

definition tester_vial :: product where
  "tester_vial = sample_product ''p6'' ''Tester Vial'' ''Tihamis'' ''A small sample'' ''fresh'' (Num 1)"

definition empty_app :: app_state where
  "empty_app = \<lparr>products = [], filteredProducts = [], cart = [], searchQuery = [],
     selectedCategory = ''all'', notification = None, perfume_cart = None\<rparr>"

definition sample_form :: checkout_form where
  "sample_form = \<lparr>form_customerName = ''Ada'', form_email = ''ada@example.org'',
     form_phone = ''555'', form_address = ''1 Main St'', form_city = ''Town'',
     form_zipCode = ''12345'', form_cardNumber = [], form_expiryDate = [], form_cvv = []\<rparr>"

text \<open>The cart of the pricing example of the specification, and the promo of \<^verbatim>\<open>SAVE10\<close>.\<close>

definition spec_cart :: "cart_item list" where
  "spec_cart = [with_quantity royal_oud (Num 2), with_quantity citrus_dream (Num 1)]"

definition save10 :: promo where
  "save10 = \<lparr>promo_discount = Num 10, promo_type = ''percentage''\<rparr>"


text \<open>Further sample carts.\<close>

definition single_oud_cart :: "cart_item list" where
  "single_oud_cart = [with_quantity royal_oud (Num 1)]"



definition three_cart :: "cart_item list" where
  "three_cart = [with_quantity citrus_dream (Num 1), with_quantity midnight_rose (Num 1),
     with_quantity ocean_breeze (Num 1)]"

definition three_cart_reordered :: "cart_item list" where
  "three_cart_reordered = [with_quantity citrus_dream (Num 1), with_quantity ocean_breeze (Num 1),
     with_quantity midnight_rose (Num 1)]"

definition whole_price_cart :: "cart_item list" where
  "whole_price_cart = [with_quantity rose_sample (Num 3), with_quantity tester_vial (Num 2)]"

definition two_line_cart :: "cart_item list" where
  "two_line_cart = [with_quantity rose_sample (Num 2), with_quantity tester_vial (Num 1)]"

text \<open>A cart whose one entry has the quantity \<open>2^53\<close>.\<close>

definition huge_quantity_cart :: "cart_item list" where
  "huge_quantity_cart = [with_quantity rose_sample (Num 9007199254740992)]"

section \<open>Rounding to binary64\<close>

lemma two_powi_less_iff: "(2::rat) powi a < 2 powi b \<longleftrightarrow> a < b"
proof
  assume l: "(2::rat) powi a < 2 powi b"
  show "a < b"
  proof (rule ccontr)
    assume "\<not> a < b"
    then have "b \<le> a" by simp
    then have "(2::rat) powi b \<le> 2 powi a" by (intro power_int_increasing) auto
    with l show False by simp
  qed
next
  assume "a < b"
  then show "(2::rat) powi a < 2 powi b" by (intro power_int_strict_increasing) auto
qed

lemma two_powi_le_iff: "(2::rat) powi a \<le> 2 powi b \<longleftrightarrow> a \<le> b"
  using two_powi_less_iff [of b a] by (auto simp: not_less [symmetric])

lemma two_powi_pos [simp]: "0 < (2::rat) powi a"
  by simp

lemma two_powi_Suc: "(2::rat) powi (a + 1) = 2 * 2 powi a"
  by (simp add: power_int_add)

lemma ilog2_bounds:
  assumes "0 < x"
  shows "2 powi ilog2 x \<le> x \<and> x < 2 powi (ilog2 x + 1)"
proof (cases "1 \<le> x")
  case True
  define n where "n = \<lfloor>x\<rfloor>"
  define b where "b = bitlen n"
  from True have n1: "1 \<le> n" by (simp add: n_def)
  then have n0: "0 < n" by simp
  from bitlen_bounds [OF n0] have lo: "2 ^ nat (b - 1) \<le> n" and hi: "n < 2 ^ nat b"
    by (simp_all add: b_def)
  have b1: "1 \<le> b"
    using n0 by (simp add: b_def bitlen_alt_def)
  have e: "ilog2 x = b - 1" using True by (simp add: ilog2_def n_def b_def)
  have "(2::rat) powi (b - 1) = 2 ^ nat (b - 1)" using b1 by (simp add: power_int_def)
  also have "\<dots> = of_int (2 ^ nat (b - 1))" by simp
  also have "\<dots> \<le> of_int n" using lo by (simp only: of_int_le_iff)
  also have "\<dots> \<le> x" by (simp add: n_def)
  finally have A: "2 powi (b - 1) \<le> x" .
  have "n + 1 \<le> 2 ^ nat b" using hi by simp
  then have "(of_int (n + 1) :: rat) \<le> of_int (2 ^ nat b)" by (simp only: of_int_le_iff)
  moreover have "x < of_int (n + 1)" using floor_correct [of x] by (simp add: n_def)
  ultimately have "x < of_int (2 ^ nat b)" by simp
  also have "\<dots> = 2 powi b" using b1 by (simp add: power_int_def)
  finally have B: "x < 2 powi b" .
  from A B e show ?thesis by simp
next
  case False
  define y where "y = 1 / x"
  define n where "n = \<lfloor>y\<rfloor>"
  define b where "b = bitlen n"
  from False assms have y1: "1 < y" by (simp add: y_def)
  then have n1: "1 \<le> n" by (simp add: n_def)
  then have n0: "0 < n" by simp
  from bitlen_bounds [OF n0] have lo: "2 ^ nat (b - 1) \<le> n" and hi: "n < 2 ^ nat b"
    by (simp_all add: b_def)
  have b1: "1 \<le> b"
    using n0 by (simp add: b_def bitlen_alt_def)
  have x: "x = 1 / y" by (simp add: y_def)
  have "(2::rat) ^ nat (b - 1) = of_int (2 ^ nat (b - 1))" by simp
  also have "\<dots> \<le> of_int n" using lo by (simp only: of_int_le_iff)
  also have "\<dots> \<le> y" by (simp add: n_def)
  finally have A: "2 ^ nat (b - 1) \<le> y" .
  have "n + 1 \<le> 2 ^ nat b" using hi by simp
  then have "(of_int (n + 1) :: rat) \<le> of_int (2 ^ nat b)" by (simp only: of_int_le_iff)
  moreover have "y < of_int (n + 1)" using floor_correct [of y] by (simp add: n_def)
  ultimately have B: "y < 2 ^ nat b" by simp
  have ypos: "0 < y" using y1 by simp
  have A': "x \<le> 1 / 2 ^ nat (b - 1)"
    unfolding x using A ypos by (simp add: field_simps)
  have B': "1 / 2 ^ nat b < x"
    unfolding x using B ypos by (simp add: field_simps)
  have p1: "(2::rat) powi (- b) = 1 / 2 ^ nat b"
    using b1 by (simp add: power_int_def field_simps)
  have p2: "(2::rat) powi (1 - b) = 1 / 2 ^ nat (b - 1)"
  proof (cases "b = 1")
    case True
    then show ?thesis by simp
  next
    case False
    with b1 have "1 - b < 0" by simp
    then have "(2::rat) powi (1 - b) = inverse 2 ^ nat (b - 1)"
      by (simp add: power_int_def)
    then show ?thesis by (simp add: field_simps)
  qed
  show ?thesis
  proof (cases "x = 1 / 2 ^ nat (b - 1)")
    case True
    then have e: "ilog2 x = 1 - b"
      using False by (simp add: ilog2_def Let_def y_def n_def b_def)
    from p2 True have p2x: "(2::rat) powi (1 - b) = x" by simp
    have "(2::rat) powi (1 - b + 1) = 2 * 2 powi (1 - b)" by (rule two_powi_Suc)
    then have s: "(2::rat) powi (ilog2 x + 1) = 2 * x" unfolding e p2x .
    have t: "(2::rat) powi ilog2 x = x" unfolding e by (rule p2x)
    from assms have "x < 2 * x" by simp
    then show ?thesis unfolding s t by simp
  next
    case ne: False
    then have e: "ilog2 x = - b"
      using False by (simp add: ilog2_def Let_def y_def n_def b_def)
    have "- b + 1 = 1 - b" by simp
    with e p1 p2 A' B' ne show ?thesis by simp
  qed
qed

lemma ilog2_unique:
  assumes "2 powi e \<le> x" "x < 2 powi (e + 1)"
  shows "ilog2 x = e"
proof -
  have "0 < (2::rat) powi e" by simp
  with assms have "0 < x" by linarith
  from ilog2_bounds [OF this] have l: "2 powi ilog2 x \<le> x" and u: "x < 2 powi (ilog2 x + 1)"
    by simp_all
  from assms(1) u have "(2::rat) powi e < 2 powi (ilog2 x + 1)" by simp
  then have 1: "e < ilog2 x + 1" by (simp add: two_powi_less_iff)
  from l assms(2) have "(2::rat) powi ilog2 x < 2 powi (e + 1)" by simp
  then have 2: "ilog2 x < e + 1" by (simp add: two_powi_less_iff)
  from 1 2 show ?thesis by simp
qed

lemma round_half_even_unique:
  assumes "\<bar>q - of_int k\<bar> < 1 / 2"
  shows "round_half_even q = k"
proof -
  from assms have a: "of_int k - 1 / 2 < q" and b: "q < of_int k + 1 / 2"
    by linarith+
  show ?thesis
  proof (cases "of_int k \<le> q")
    case True
    have "\<lfloor>q\<rfloor> = k" using True b by (intro floor_unique) auto
    then show ?thesis using b by (simp add: round_half_even_def Let_def)
  next
    case False
    have "\<lfloor>q\<rfloor> = k - 1" using False a by (intro floor_unique) auto
    then show ?thesis using a by (simp add: round_half_even_def Let_def)
  qed
qed

lemma round_half_even_of_int [simp]: "round_half_even (of_int k) = k"
  by (rule round_half_even_unique) simp

lemma rnd_cert_gen:
  assumes "2 powi e \<le> \<bar>x\<bar>" "\<bar>x\<bar> < 2 powi (e + 1)" "ue = max e (- 1022) - 52"
    and "\<bar>x - of_int k * 2 powi ue\<bar> < 2 powi (ue - 1)"
    and "\<bar>(of_int k :: rat) * 2 powi ue\<bar> < 2 ^ 1024"
  shows "rnd x = Num (of_int k * 2 powi ue)"
proof -
  have "0 < (2::rat) powi e" by simp
  with assms(1) have "0 < \<bar>x\<bar>" by linarith
  then have x0: "x \<noteq> 0" by simp
  have e: "ilog2 \<bar>x\<bar> = e" using assms(1,2) by (rule ilog2_unique)
  have u: "ulp x = 2 powi ue" using assms(3) by (simp add: ulp_def e)
  have h: "(2::rat) powi (ue - 1) = 2 powi ue / 2"
    using two_powi_Suc [of "ue - 1"] by simp
  have upos: "0 < (2::rat) powi ue" by simp
  have "\<bar>x / 2 powi ue - of_int k\<bar> = \<bar>x - of_int k * 2 powi ue\<bar> / 2 powi ue"
    using upos by (simp add: field_simps abs_divide)
  also have "\<dots> < (2 powi ue / 2) / 2 powi ue"
    using assms(4) upos unfolding h by (simp add: divide_strict_right_mono)
  also have "\<dots> = 1 / 2" using upos by simp
  finally have "round_half_even (x / 2 powi ue) = k" by (rule round_half_even_unique)
  then show ?thesis using x0 assms(5) by (simp add: rnd_def u Let_def)
qed

lemma rnd_cert:
  assumes "2 powi e \<le> \<bar>x\<bar>" "\<bar>x\<bar> < 2 powi (e + 1)" "- 1022 \<le> e"
    and "\<bar>x - of_int k * 2 powi (e - 52)\<bar> < 2 powi (e - 53)"
    and "\<bar>(of_int k :: rat) * 2 powi (e - 52)\<bar> < 2 ^ 1024"
  shows "rnd x = Num (of_int k * 2 powi (e - 52))"
proof -
  from assms(3) have ue: "e - 52 = max e (- 1022) - 52" by simp
  have m: "e - 53 = e - 52 - 1" by simp
  show ?thesis
    using assms(1,2) ue assms(4) [unfolded m] assms(5) by (rule rnd_cert_gen)
qed

lemma round_half_even_tie:
  "round_half_even (of_int f + 1 / 2) = (if even f then f else f + 1)"
proof -
  have "\<lfloor>(of_int f :: rat) + 1 / 2\<rfloor> = f" by (intro floor_unique) auto
  then show ?thesis by (simp add: round_half_even_def Let_def)
qed

lemma rnd_cert_tie:
  assumes "2 powi e \<le> \<bar>x\<bar>" "\<bar>x\<bar> < 2 powi (e + 1)" "- 1022 \<le> e"
    and "x = (of_int f + 1 / 2) * 2 powi (e - 52)"
    and "k = (if even f then f else f + 1)"
    and "\<bar>(of_int k :: rat) * 2 powi (e - 52)\<bar> < 2 ^ 1024"
  shows "rnd x = Num (of_int k * 2 powi (e - 52))"
proof -
  have "0 < (2::rat) powi e" by simp
  with assms(1) have "0 < \<bar>x\<bar>" by linarith
  then have x0: "x \<noteq> 0" by simp
  have e: "ilog2 \<bar>x\<bar> = e" using assms(1,2) by (rule ilog2_unique)
  have u: "ulp x = 2 powi (e - 52)" using assms(3) by (simp add: ulp_def e max_def)
  have "x / 2 powi (e - 52) = of_int f + 1 / 2" by (simp add: assms(4))
  then have "round_half_even (x / 2 powi (e - 52)) = k"
    by (simp only: round_half_even_tie assms(5))
  then show ?thesis using x0 assms(6) by (simp add: rnd_def u Let_def)
qed

lemma rnd_whole:
  assumes "\<bar>n\<bar> \<le> 2 ^ 53"
  shows "rnd (of_int n) = Num (of_int n)"
proof (cases "n = 0")
  case True
  then show ?thesis by (simp add: rnd_def)
next
  case False
  define x :: rat where "x = of_int n"
  define e where "e = ilog2 \<bar>x\<bar>"
  have xpos: "0 < \<bar>x\<bar>" using False by (simp add: x_def)
  from ilog2_bounds [OF xpos] have lo: "2 powi e \<le> \<bar>x\<bar>" and hi: "\<bar>x\<bar> < 2 powi (e + 1)"
    by (simp_all add: e_def)
  have x1: "1 \<le> \<bar>x\<bar>" using False unfolding x_def by (simp flip: of_int_abs)
  have xle: "\<bar>x\<bar> \<le> 2 powi 53"
  proof -
    have "\<bar>x\<bar> = of_int \<bar>n\<bar>" by (simp add: x_def)
    also have "\<dots> \<le> of_int (2 ^ 53)" using assms by (simp only: of_int_le_iff)
    finally show ?thesis by simp
  qed
  have "(2::rat) powi 0 < 2 powi (e + 1)" using x1 hi by simp
  then have e0: "0 \<le> e" by (simp only: two_powi_less_iff)
  have "(2::rat) powi e \<le> 2 powi 53" using lo xle by linarith
  then have e53: "e \<le> 53" by (simp only: two_powi_le_iff)
  show ?thesis
  proof (cases "e \<le> 52")
    case True
    define k where "k = n * 2 ^ nat (52 - e)"
    have "(2::rat) powi (e - 52) = 1 / 2 ^ nat (52 - e)"
      using True by (cases "e = 52") (simp_all add: power_int_def field_simps)
    then have kx: "of_int k * 2 powi (e - 52) = x"
      by (simp add: k_def x_def)
    have r: "rnd x = Num (of_int k * 2 powi (e - 52))"
    proof (rule rnd_cert [OF lo hi])
      show "- 1022 \<le> e" using e0 by simp
      show "\<bar>x - of_int k * 2 powi (e - 52)\<bar> < 2 powi (e - 53)" by (simp add: kx)
      have "\<bar>x\<bar> < 2 ^ 1024" using xle by (simp add: order_le_less_trans)
      then show "\<bar>(of_int k :: rat) * 2 powi (e - 52)\<bar> < 2 ^ 1024" by (simp only: kx)
    qed
    then show ?thesis by (simp only: kx) (simp add: x_def)
  next
    case False
    with e53 have e: "e = 53" by simp
    from lo xle have ax: "\<bar>x\<bar> = 2 ^ 53" by (simp add: e)
    define k :: int where "k = sgn n * 2 ^ 52"
    have "x = of_int (sgn n) * \<bar>x\<bar>"
      unfolding x_def by (simp flip: of_int_abs of_int_mult add: mult_sgn_abs)
    then have kx: "of_int k * 2 powi (e - 52) = x"
      by (simp add: k_def e ax)
    have r: "rnd x = Num (of_int k * 2 powi (e - 52))"
    proof (rule rnd_cert [OF lo hi])
      show "- 1022 \<le> e" using e0 by simp
      show "\<bar>x - of_int k * 2 powi (e - 52)\<bar> < 2 powi (e - 53)" by (simp add: kx)
      have "\<bar>x\<bar> < 2 ^ 1024" using ax by simp
      then show "\<bar>(of_int k :: rat) * 2 powi (e - 52)\<bar> < 2 ^ 1024" by (simp only: kx)
    qed
    then show ?thesis by (simp only: kx) (simp add: x_def)
  qed
qed


lemma round_half_even_0 [simp]: "round_half_even 0 = 0"
  using round_half_even_of_int [of 0] by simp













lemma rnd_whole_nat:
  assumes "0 \<le> n" "(of_int n :: rat) \<le> 2 ^ 53"
  shows "rnd (of_int n) = Num (of_int n)"
proof -
  have "(of_int n :: rat) \<le> of_int (2 ^ 53)" using assms(2) by simp
  then have "n \<le> 2 ^ 53" by (simp only: of_int_le_iff)
  with assms(1) have "\<bar>n\<bar> \<le> 2 ^ 53" by simp
  then show ?thesis by (rule rnd_whole)
qed

text \<open>Whole quantities add exactly, as long as the sum is at most \<open>2^53\<close>.\<close>

lemma num_add_whole:
  assumes "a + b \<le> 2 ^ 53"
  shows "num_add (Num (of_nat a)) (Num (of_nat b)) = Num (of_nat (a + b))"
proof -
  have "(of_nat (a + b) :: rat) \<le> of_nat (2 ^ 53)"
    using assms by (simp only: of_nat_le_iff)
  then have "(of_int (int (a + b)) :: rat) \<le> 2 ^ 53" by simp
  moreover have "0 \<le> int (a + b)" by simp
  ultimately have "rnd (of_int (int (a + b))) = Num (of_int (int (a + b)))"
    by (intro rnd_whole_nat)
  then show ?thesis by simp
qed

section \<open>Strings and patterns\<close>

lemma startsWith_iff: "startsWith hay needle \<longleftrightarrow> (\<exists>post. hay = needle @ post)"
  by (induction hay needle rule: startsWith.induct) auto

text \<open>\<open>includesStr\<close> is the substring test.\<close>

lemma includesStr_iff: "includesStr hay needle \<longleftrightarrow> (\<exists>pre post. hay = pre @ needle @ post)"
proof (induction hay)
  case Nil
  then show ?case by auto
next
  case (Cons h hay)
  show ?case
  proof
    assume "includesStr (h # hay) needle"
    then consider "startsWith (h # hay) needle" | "includesStr hay needle" by auto
    then show "\<exists>pre post. h # hay = pre @ needle @ post"
    proof cases
      case 1
      then obtain post where "h # hay = needle @ post" by (auto simp: startsWith_iff)
      then have "h # hay = [] @ needle @ post" by simp
      then show ?thesis by blast
    next
      case 2
      then obtain pre post where "hay = pre @ needle @ post" using Cons.IH by blast
      then have "h # hay = (h # pre) @ needle @ post" by simp
      then show ?thesis by blast
    qed
  next
    assume "\<exists>pre post. h # hay = pre @ needle @ post"
    then obtain pre post where e: "h # hay = pre @ needle @ post" by blast
    show "includesStr (h # hay) needle"
    proof (cases pre)
      case Nil
      with e have "startsWith (h # hay) needle" by (auto simp: startsWith_iff)
      then show ?thesis by simp
    next
      case (Cons a pre')
      with e have "hay = pre' @ needle @ post" by simp
      then have "includesStr hay needle" using Cons.IH by blast
      then show ?thesis by simp
    qed
  qed
qed

lemma includesStr_Nil [simp]: "includesStr s []"
  by (induction s) auto

lemma match_here_literal:
  "match_here caseless (map Literal q) s \<longleftrightarrow>
     (\<exists>mid post. s = mid @ post \<and> list_all2 caseless q mid)"
proof (induction q arbitrary: s)
  case Nil
  show ?case by simp
next
  case (Cons a q)
  show ?case
  proof (cases s)
    case Nil
    then show ?thesis by (simp add: list_all2_Cons1)
  next
    case (Cons c cs)
    have "(\<exists>mid post. c # cs = mid @ post \<and> list_all2 caseless (a # q) mid) \<longleftrightarrow>
          (caseless a c \<and> (\<exists>mid post. cs = mid @ post \<and> list_all2 caseless q mid))"
    proof
      assume "\<exists>mid post. c # cs = mid @ post \<and> list_all2 caseless (a # q) mid"
      then obtain mid post where e: "c # cs = mid @ post" and l: "list_all2 caseless (a # q) mid"
        by blast
      from l obtain z zs where m: "mid = z # zs" and az: "caseless a z"
        and r: "list_all2 caseless q zs" by (auto simp: list_all2_Cons1)
      from e m have "z = c" "cs = zs @ post" by simp_all
      with az r show "caseless a c \<and> (\<exists>mid post. cs = mid @ post \<and> list_all2 caseless q mid)"
        by blast
    next
      assume "caseless a c \<and> (\<exists>mid post. cs = mid @ post \<and> list_all2 caseless q mid)"
      then obtain mid post where ac: "caseless a c" and e: "cs = mid @ post"
        and l: "list_all2 caseless q mid" by blast
      from e have "c # cs = (c # mid) @ post" by simp
      moreover from ac l have "list_all2 caseless (a # q) (c # mid)" by simp
      ultimately show "\<exists>mid post. c # cs = mid @ post \<and> list_all2 caseless (a # q) mid"
        by blast
    qed
    with Cons Cons.IH [of cs] show ?thesis by simp
  qed
qed

lemma regex_test_literal:
  "regex_test caseless (map Literal q) s \<longleftrightarrow> occurs_caseless caseless q s"
proof (induction s)
  case Nil
  show ?case by (cases q) (auto simp: occurs_caseless_def)
next
  case (Cons c cs)
  have "occurs_caseless caseless q (c # cs) \<longleftrightarrow>
        (\<exists>mid post. c # cs = mid @ post \<and> list_all2 caseless q mid) \<or>
        occurs_caseless caseless q cs"
  proof
    assume "occurs_caseless caseless q (c # cs)"
    then obtain pre mid post where e: "c # cs = pre @ mid @ post"
      and l: "list_all2 caseless q mid" by (auto simp: occurs_caseless_def)
    show "(\<exists>mid post. c # cs = mid @ post \<and> list_all2 caseless q mid) \<or>
        occurs_caseless caseless q cs"
    proof (cases pre)
      case Nil
      with e l show ?thesis by auto
    next
      case (Cons a pre')
      with e have "cs = pre' @ mid @ post" by simp
      with l show ?thesis by (auto simp: occurs_caseless_def)
    qed
  next
    assume "(\<exists>mid post. c # cs = mid @ post \<and> list_all2 caseless q mid) \<or>
        occurs_caseless caseless q cs"
    then show "occurs_caseless caseless q (c # cs)"
    proof
      assume "\<exists>mid post. c # cs = mid @ post \<and> list_all2 caseless q mid"
      then obtain mid post where "c # cs = [] @ mid @ post" "list_all2 caseless q mid" by auto
      then show ?thesis unfolding occurs_caseless_def by blast
    next
      assume "occurs_caseless caseless q cs"
      then obtain pre mid post where "cs = pre @ mid @ post" "list_all2 caseless q mid"
        by (auto simp: occurs_caseless_def)
      then have "c # cs = (c # pre) @ mid @ post" "list_all2 caseless q mid" by simp_all
      then show ?thesis unfolding occurs_caseless_def by blast
    qed
  qed
  with Cons match_here_literal [of caseless q "c # cs"] show ?case by simp
qed

lemma occurs_lowered_includes:
  "occurs_lowered toLowerCase q field = includesStr (toLowerCase field) (toLowerCase q)"
  by (simp add: occurs_lowered_def includesStr_iff)

lemma regex_test_Nil [simp]: "regex_test caseless [] s"
  by (cases s) auto

lemma parse_pattern_literal:
  "set q \<inter> set metachars = {} \<Longrightarrow> parse_pattern q = Some (map Literal q)"
  by (induction q) (auto simp: metachars_def)

lemmas case_simps = ascii_toLowerCase_def ascii_toUpperCase_def ascii_caseless_def
  lower_letters_def upper_letters_def

lemmas sample_simps = sample_product_def royal_oud_def citrus_dream_def midnight_rose_def
  ocean_breeze_def rose_sample_def tester_vial_def empty_app_def sample_form_def

lemmas item_simps = with_quantity_def product.extend_def cart_item.fields_def sample_simps

lemma list_all2_ascii_caseless:
  "list_all2 ascii_caseless q mid \<longleftrightarrow> ascii_toLowerCase q = ascii_toLowerCase mid"
  by (induction q arbitrary: mid)
     (auto simp: list_all2_Cons1 ascii_caseless_def ascii_toLowerCase_def)

lemma occurs_caseless_ascii:
  "occurs_caseless ascii_caseless q s = includesStr (ascii_toLowerCase s) (ascii_toLowerCase q)"
proof
  assume "occurs_caseless ascii_caseless q s"
  then obtain pre mid post where s: "s = pre @ mid @ post"
    and l: "ascii_toLowerCase q = ascii_toLowerCase mid"
    by (auto simp: occurs_caseless_def list_all2_ascii_caseless)
  from s have "ascii_toLowerCase s =
      ascii_toLowerCase pre @ ascii_toLowerCase mid @ ascii_toLowerCase post"
    by (simp add: ascii_toLowerCase_def)
  with l show "includesStr (ascii_toLowerCase s) (ascii_toLowerCase q)"
    unfolding includesStr_iff by metis
next
  assume "includesStr (ascii_toLowerCase s) (ascii_toLowerCase q)"
  then obtain pre post where e: "ascii_toLowerCase s = pre @ ascii_toLowerCase q @ post"
    unfolding includesStr_iff by blast
  define f where "f = (\<lambda>c. case map_of (zip upper_letters lower_letters) c of
      Some l \<Rightarrow> l | None \<Rightarrow> c)"
  have low: "ascii_toLowerCase xs = map f xs" for xs
    by (simp add: ascii_toLowerCase_def f_def)
  from e have "map f s = pre @ (map f q @ post)" by (simp add: low)
  then obtain us vs where s: "s = us @ vs" and "pre = map f us" and v: "map f q @ post = map f vs"
    by (auto simp: map_eq_append_conv)
  from v obtain ws xs where vs: "vs = ws @ xs" and w: "map f q = map f ws"
    by (auto simp: append_eq_map_conv)
  from s vs have "s = us @ ws @ xs" by simp
  moreover from w have "list_all2 ascii_caseless q ws"
    by (simp add: list_all2_ascii_caseless low)
  ultimately show "occurs_caseless ascii_caseless q s"
    unfolding occurs_caseless_def by blast
qed

lemma search_literal:
  assumes "q \<noteq> []" "set q \<inter> set metachars = {}"
  shows "search caseless q catalog =
        Some (Products
          (filter (\<lambda>p. occurs_caseless caseless q (name p) \<or> occurs_caseless caseless q (brand p) \<or>
                       occurs_caseless caseless q (description p) \<or>
                       occurs_caseless caseless q (category p)) catalog))"
  using assms by (simp add: search_def parse_pattern_literal regex_test_literal)

lemmas search_eval = search_literal occurs_caseless_ascii metachars_def ascii_toLowerCase_def
  lower_letters_def upper_letters_def sample_simps

section \<open>Catalog queries\<close>

lemma occurs_caseless_code:
  "occurs_caseless caseless q s = regex_test caseless (map Literal q) s"
  by (simp add: regex_test_literal)

text \<open>
  C6, as the code has it. The query is a regular expression, not a literal, and the empty
  query does not reach the search. For every query that is not empty and is made of
  ordinary characters only (no \<^verbatim>\<open>\ ^ $ . | ? * + ( ) [ ] { }\<close>), \<open>search\<close> returns exactly
  the products of the catalog, in catalog order, in whose name, brand, description or
  category the query occurs as a substring up to the case-insensitive comparison of the
  store. The request with the empty query is answered with status 500.
\<close>

theorem search_literal_query:
  "(q \<noteq> [] \<and> set q \<inter> set metachars = {} \<longrightarrow>
      search caseless q catalog =
        Some (Products
          (filter (\<lambda>p. occurs_caseless caseless q (name p) \<or> occurs_caseless caseless q (brand p) \<or>
                       occurs_caseless caseless q (description p) \<or>
                       occurs_caseless caseless q (category p)) catalog)))
   \<and> search caseless [] catalog = Some Status_500"
  by (simp add: search_literal) (simp add: search_def)

theorem search_literal_query_witness:
  "''ROSE'' \<noteq> [] \<and> set ''ROSE'' \<inter> set metachars = {}
   \<and> search ascii_caseless ''ROSE'' [citrus_dream, midnight_rose, rose_sample] =
        Some (Products
          (filter (\<lambda>p. occurs_caseless ascii_caseless ''ROSE'' (name p) \<or>
                       occurs_caseless ascii_caseless ''ROSE'' (brand p) \<or>
                       occurs_caseless ascii_caseless ''ROSE'' (description p) \<or>
                       occurs_caseless ascii_caseless ''ROSE'' (category p))
             [citrus_dream, midnight_rose, rose_sample]))
   \<and> search ascii_caseless ''ROSE'' [citrus_dream, midnight_rose, rose_sample] =
        Some (Products [midnight_rose, rose_sample])
   \<and> search ascii_caseless ''paris'' [citrus_dream, midnight_rose, rose_sample] =
        Some (Products [midnight_rose])
   \<and> search ascii_caseless ''Fresh'' [citrus_dream, midnight_rose, rose_sample] =
        Some (Products [citrus_dream])
   \<and> search ascii_caseless ''zzz'' [citrus_dream, midnight_rose, rose_sample] =
        Some (Products [])
   \<and> search ascii_caseless [] [citrus_dream, midnight_rose] = Some Status_500"
proof -
  have h: "''ROSE'' \<noteq> [] \<and> set ''ROSE'' \<inter> set metachars = {}"
    by (simp add: metachars_def)
  have e: "search ascii_caseless ''ROSE'' [citrus_dream, midnight_rose, rose_sample] =
        Some (Products [midnight_rose, rose_sample])"
    "search ascii_caseless ''paris'' [citrus_dream, midnight_rose, rose_sample] =
        Some (Products [midnight_rose])"
    "search ascii_caseless ''Fresh'' [citrus_dream, midnight_rose, rose_sample] =
        Some (Products [citrus_dream])"
    "search ascii_caseless ''zzz'' [citrus_dream, midnight_rose, rose_sample] =
        Some (Products [])"
    by (simp_all add: search_eval)
  from h e search_literal_query [of "''ROSE''" ascii_caseless
      "[citrus_dream, midnight_rose, rose_sample]"]
    search_literal_query [of "''ROSE''" ascii_caseless "[citrus_dream, midnight_rose]"]
  show ?thesis by blast
qed

text \<open>
  C6 as stated fails: the query \<^verbatim>\<open>.\<close> occurs in no field of the sample product, and the
  search returns the product all the same, because the dot matches any character; and
  the empty query is answered with status 500, not with the catalog.
\<close>

theorem search_dot_counterexample:
  "search ascii_caseless ''.'' [rose_sample] = Some (Products [rose_sample])
   \<and> \<not> occurs_caseless ascii_caseless ''.'' (name rose_sample)
   \<and> \<not> occurs_caseless ascii_caseless ''.'' (brand rose_sample)
   \<and> \<not> occurs_caseless ascii_caseless ''.'' (description rose_sample)
   \<and> \<not> occurs_caseless ascii_caseless ''.'' (category rose_sample)
   \<and> search ascii_caseless [] [rose_sample] = Some Status_500"
  by (simp add: search_def metachars_def occurs_caseless_code case_simps sample_simps)

text \<open>
  C7. For every category string and every catalog, \<open>listByCategory\<close> returns exactly the
  products whose category is that very string, in catalog order: a product is in the
  result if and only if it is in the catalog and its category equals the string. Equality
  of strings is exact, so \<^verbatim>\<open>floral\<close> finds neither \<^verbatim>\<open>Floral\<close> nor \<^verbatim>\<open>floral notes\<close>.
\<close>

theorem listByCategory_exact:
  "listByCategory c catalog = filter (\<lambda>p. category p = c) catalog
   \<and> (p \<in> set (listByCategory c catalog)) = (p \<in> set catalog \<and> category p = c)
   \<and> listByCategory ''floral''
        [midnight_rose, midnight_rose\<lparr>category := ''Floral''\<rparr>,
         midnight_rose\<lparr>category := ''floral notes''\<rparr>, citrus_dream] = [midnight_rose]"
  by (auto simp: listByCategory_def sample_simps)

section \<open>The cart\<close>

lemma find_id_None:
  "(find (\<lambda>item. id' item = id' p) c = None) = (id' p \<notin> id' ` set c)"
  by (simp add: find_None_iff image_iff) metis

lemma addToCart_cart:
  "cart (addToCart p qopt s) =
     (if id' p \<in> id' ` set (cart s)
      then map (\<lambda>item. if id' item = id' p
                        then item\<lparr>quantity :=
                               num_add (quantity item) (case qopt of None \<Rightarrow> Num 1 | Some q \<Rightarrow> q)\<rparr>
                        else item) (cart s)
      else cart s @ [with_quantity p (case qopt of None \<Rightarrow> Num 1 | Some q \<Rightarrow> q)])"
proof (cases "find (\<lambda>item. id' item = id' p) (cart s)")
  case None
  then have "id' p \<notin> id' ` set (cart s)"
    using find_id_None [of p "cart s"] by auto
  with None show ?thesis
    by (simp add: addToCart_def Let_def showNotification_def saveCartToStorage_def)
next
  case (Some a)
  then have "id' p \<in> id' ` set (cart s)"
    using find_id_None [of p "cart s"] by auto
  with Some show ?thesis
    by (simp add: addToCart_def Let_def showNotification_def saveCartToStorage_def)
qed

lemma with_quantity_fields:
  "product.truncate (with_quantity p q) = p" "quantity (with_quantity p q) = q"
  "id' (with_quantity p q) = id' p"
  "(with_quantity p q)\<lparr>quantity := r\<rparr> = with_quantity p r"
  by (simp_all add: with_quantity_def product.extend_def product.truncate_def
      cart_item.fields_def)

text \<open>
  C8, as the code has it. For every cart state, product and quantity \<open>q\<close> (1 when left
  out): when an entry of the cart has the product's \<^verbatim>\<open>_id\<close>, \<open>addToCart\<close> gives the same
  entries in the same order and no entry more, every other entry unchanged, and the
  matching entry with the quantity \<^verbatim>\<open>item.quantity + quantity\<close>, a sum of JavaScript
  numbers; that sum is the old quantity increased by \<open>q\<close> whenever both are whole numbers
  and the exact sum is at most \<open>2^53\<close>. When no entry has the \<^verbatim>\<open>_id\<close>, the cart grows by
  one entry at the end, which carries the product's fields and the quantity \<open>q\<close>.
\<close>

theorem addToCart_merges_or_appends:
  "cart (addToCart p qopt s) =
     (if id' p \<in> id' ` set (cart s)
      then map (\<lambda>item. if id' item = id' p
                        then item\<lparr>quantity :=
                               num_add (quantity item) (case qopt of None \<Rightarrow> Num 1 | Some q \<Rightarrow> q)\<rparr>
                        else item) (cart s)
      else cart s @ [with_quantity p (case qopt of None \<Rightarrow> Num 1 | Some q \<Rightarrow> q)])
   \<and> length (cart (addToCart p qopt s)) =
       (if id' p \<in> id' ` set (cart s) then length (cart s) else Suc (length (cart s)))
   \<and> map id' (cart (addToCart p qopt s)) =
       (if id' p \<in> id' ` set (cart s) then map id' (cart s) else map id' (cart s) @ [id' p])
   \<and> product.truncate (with_quantity p q) = p \<and> quantity (with_quantity p q) = q
   \<and> (i < length (cart s) \<and> id' (cart s ! i) = id' p \<and>
       quantity (cart s ! i) = Num (of_nat a) \<and>
       (case qopt of None \<Rightarrow> Num 1 | Some q \<Rightarrow> q) = Num (of_nat b) \<and> a + b \<le> 2 ^ 53
       \<longrightarrow> cart (addToCart p qopt s) ! i = (cart s ! i)\<lparr>quantity := Num (of_nat (a + b))\<rparr>)
   \<and> (i < length (cart s) \<and> id' (cart s ! i) \<noteq> id' p
       \<longrightarrow> cart (addToCart p qopt s) ! i = cart s ! i)"
proof -
  note c = addToCart_cart [of p qopt s]
  have l: "length (cart (addToCart p qopt s)) =
       (if id' p \<in> id' ` set (cart s) then length (cart s) else Suc (length (cart s)))"
    by (simp add: c)
  have m: "map id' (cart (addToCart p qopt s)) =
       (if id' p \<in> id' ` set (cart s) then map id' (cart s) else map id' (cart s) @ [id' p])"
    by (simp add: c with_quantity_fields comp_def if_distrib cong: if_cong)
  have hit: "cart (addToCart p qopt s) ! i = (cart s ! i)\<lparr>quantity := Num (of_nat (a + b))\<rparr>"
    if "i < length (cart s)" "id' (cart s ! i) = id' p" "quantity (cart s ! i) = Num (of_nat a)"
      "(case qopt of None \<Rightarrow> Num 1 | Some q \<Rightarrow> q) = Num (of_nat b)" "a + b \<le> 2 ^ 53"
  proof -
    from that(1) have "cart s ! i \<in> set (cart s)" by simp
    with that(2) have "id' p \<in> id' ` set (cart s)" by (metis imageI)
    with that(1,2) have "cart (addToCart p qopt s) ! i =
        (cart s ! i)\<lparr>quantity := num_add (quantity (cart s ! i))
           (case qopt of None \<Rightarrow> Num 1 | Some q \<Rightarrow> q)\<rparr>"
      by (simp add: c)
    then show ?thesis by (simp only: that(3,4) num_add_whole [OF that(5)])
  qed
  have miss: "cart (addToCart p qopt s) ! i = cart s ! i"
    if "i < length (cart s)" "id' (cart s ! i) \<noteq> id' p"
    using that by (simp add: c nth_append)
  have w: "product.truncate (with_quantity p q) = p \<and> quantity (with_quantity p q) = q"
    by (simp add: with_quantity_fields)
  from hit have hit': "i < length (cart s) \<and> id' (cart s ! i) = id' p \<and>
       quantity (cart s ! i) = Num (of_nat a) \<and>
       (case qopt of None \<Rightarrow> Num 1 | Some q \<Rightarrow> q) = Num (of_nat b) \<and> a + b \<le> 2 ^ 53
       \<longrightarrow> cart (addToCart p qopt s) ! i = (cart s ! i)\<lparr>quantity := Num (of_nat (a + b))\<rparr>"
    by (intro impI) (elim conjE)
  from miss have miss': "i < length (cart s) \<and> id' (cart s ! i) \<noteq> id' p
       \<longrightarrow> cart (addToCart p qopt s) ! i = cart s ! i"
    by (intro impI) (elim conjE)
  show ?thesis
    by (intro conjI) (rule c, rule l, rule m, rule w [THEN conjunct1], rule w [THEN conjunct2],
        rule hit', rule miss')
qed

theorem addToCart_merges_or_appends_witness:
  "0 < length (cart (empty_app\<lparr>cart := two_line_cart\<rparr>))
   \<and> id' (cart (empty_app\<lparr>cart := two_line_cart\<rparr>) ! 0) = id' rose_sample
   \<and> quantity (cart (empty_app\<lparr>cart := two_line_cart\<rparr>) ! 0) = Num (of_nat 2)
   \<and> (case Some (Num 3) of None \<Rightarrow> Num 1 | Some q \<Rightarrow> q) = Num (of_nat 3)
   \<and> (2::nat) + 3 \<le> 2 ^ 53
   \<and> 1 < length (cart (empty_app\<lparr>cart := two_line_cart\<rparr>))
   \<and> id' (cart (empty_app\<lparr>cart := two_line_cart\<rparr>) ! 1) \<noteq> id' rose_sample
   \<and> cart (addToCart rose_sample (Some (Num 3)) (empty_app\<lparr>cart := two_line_cart\<rparr>)) ! 0 =
       (cart (empty_app\<lparr>cart := two_line_cart\<rparr>) ! 0)\<lparr>quantity := Num (of_nat (2 + 3))\<rparr>
   \<and> cart (addToCart rose_sample (Some (Num 3)) (empty_app\<lparr>cart := two_line_cart\<rparr>)) ! 1 =
       cart (empty_app\<lparr>cart := two_line_cart\<rparr>) ! 1
   \<and> cart (addToCart rose_sample (Some (Num 3)) (empty_app\<lparr>cart := two_line_cart\<rparr>)) =
       [with_quantity rose_sample (Num 5), with_quantity tester_vial (Num 1)]
   \<and> cart (addToCart rose_sample None (empty_app\<lparr>cart := two_line_cart\<rparr>)) =
       [with_quantity rose_sample (Num 3), with_quantity tester_vial (Num 1)]
   \<and> cart (addToCart citrus_dream None (empty_app\<lparr>cart := two_line_cart\<rparr>)) =
       [with_quantity rose_sample (Num 2), with_quantity tester_vial (Num 1),
        with_quantity citrus_dream (Num 1)]"
proof -
  let ?s = "empty_app\<lparr>cart := two_line_cart\<rparr>"
  have c: "cart ?s = [with_quantity rose_sample (Num 2), with_quantity tester_vial (Num 1)]"
    by (simp add: empty_app_def two_line_cart_def)
  have ids: "id' rose_sample = ''p5''" "id' tester_vial = ''p6''" "id' citrus_dream = ''p2''"
    by (simp_all add: sample_simps)
  have h0: "0 < length (cart ?s) \<and> id' (cart ?s ! 0) = id' rose_sample \<and>
      quantity (cart ?s ! 0) = Num (of_nat 2) \<and>
      (case Some (Num 3) of None \<Rightarrow> Num 1 | Some q \<Rightarrow> q) = Num (of_nat 3) \<and>
      (2::nat) + 3 \<le> 2 ^ 53"
    by (simp add: c with_quantity_fields)
  have h1: "1 < length (cart ?s) \<and> id' (cart ?s ! 1) \<noteq> id' rose_sample"
    by (simp add: c with_quantity_fields ids)
  have s23: "rnd 5 = Num 5" using rnd_whole [of 5] by simp
  have s21: "rnd 3 = Num 3" using rnd_whole [of 3] by simp
  have e: "cart (addToCart rose_sample (Some (Num 3)) ?s) =
       [with_quantity rose_sample (Num 5), with_quantity tester_vial (Num 1)]"
    "cart (addToCart rose_sample None ?s) =
       [with_quantity rose_sample (Num 3), with_quantity tester_vial (Num 1)]"
    "cart (addToCart citrus_dream None ?s) =
       [with_quantity rose_sample (Num 2), with_quantity tester_vial (Num 1),
        with_quantity citrus_dream (Num 1)]"
    by (simp_all add: addToCart_cart c with_quantity_fields ids s23 s21)
  from h0 h1 e
    addToCart_merges_or_appends [where p = rose_sample and qopt = "Some (Num 3)" and s = ?s
      and i = 0 and a = 2 and b = 3]
    addToCart_merges_or_appends [where p = rose_sample and qopt = "Some (Num 3)" and s = ?s
      and i = 1]
  show ?thesis by blast
qed

text \<open>
  C8 as stated fails: in a cart whose entry for the product has the quantity \<open>2^53\<close>,
  adding the product once more leaves the quantity, and the whole cart, as it was; the
  quantity is not increased by 1.
\<close>

theorem addToCart_quantity_counterexample:
  "cart (addToCart rose_sample (Some (Num 1)) (empty_app\<lparr>cart := huge_quantity_cart\<rparr>))
     = huge_quantity_cart
   \<and> quantity (hd (cart (addToCart rose_sample (Some (Num 1))
        (empty_app\<lparr>cart := huge_quantity_cart\<rparr>)))) = Num 9007199254740992
   \<and> quantity (hd (cart (addToCart rose_sample (Some (Num 1))
        (empty_app\<lparr>cart := huge_quantity_cart\<rparr>)))) \<noteq> Num (9007199254740992 + 1)"
proof -
  have "rnd 9007199254740993 = Num (of_int 4503599627370496 * 2 powi (53 - 52))"
    by (rule rnd_cert_tie [where f = 4503599627370496]) simp_all
  then have t: "rnd 9007199254740993 = Num 9007199254740992" by simp
  have c: "cart (addToCart rose_sample (Some (Num 1)) (empty_app\<lparr>cart := huge_quantity_cart\<rparr>))
     = huge_quantity_cart"
    by (simp add: addToCart_cart empty_app_def huge_quantity_cart_def with_quantity_fields t)
  show ?thesis
    by (simp only: c) (simp add: huge_quantity_cart_def with_quantity_fields)
qed

section \<open>Promo codes\<close>

text \<open>
  C9. The entered code is put in upper case and then looked up: for every state of the
  cart page, and whatever \<^verbatim>\<open>toUpperCase\<close> does to the entry, \<open>handleApplyPromo\<close> applies
  10 percent when the upper-cased entry is \<^verbatim>\<open>SAVE10\<close>, 20 percent when it is \<^verbatim>\<open>SAVE20\<close>,
  15 flat when it is \<^verbatim>\<open>FIRSTORDER\<close> and 5 percent when it is \<^verbatim>\<open>WELCOME\<close>, and reports
  an invalid code exactly when it is none of the four. The entry \<^verbatim>\<open>save10\<close>, whose upper
  case is \<^verbatim>\<open>SAVE10\<close>, applies the 10 percent.
\<close>

theorem handleApplyPromo_uppercase_lookup:
  "handleApplyPromo toUpperCase st =
     (let k = toUpperCase (promoCode st);
          found = (\<lambda>pr. (Promo_code_applied pr, st\<lparr>appliedPromo := Some pr\<rparr>))
      in if k = ''SAVE10'' then found \<lparr>promo_discount = Num 10, promo_type = ''percentage''\<rparr>
         else if k = ''SAVE20'' then found \<lparr>promo_discount = Num 20, promo_type = ''percentage''\<rparr>
         else if k = ''FIRSTORDER'' then found \<lparr>promo_discount = Num 15, promo_type = ''flat''\<rparr>
         else if k = ''WELCOME'' then found \<lparr>promo_discount = Num 5, promo_type = ''percentage''\<rparr>
         else (Invalid_promo_code, st\<lparr>appliedPromo := None\<rparr>))
   \<and> (fst (handleApplyPromo toUpperCase st) = Invalid_promo_code) =
       (toUpperCase (promoCode st) \<notin> set [''SAVE10'', ''SAVE20'', ''FIRSTORDER'', ''WELCOME''])
   \<and> (toUpperCase ''save10'' = ''SAVE10'' \<longrightarrow>
       applyCode toUpperCase ''save10'' st =
         \<lparr>promoCode = ''save10'',
          appliedPromo = Some \<lparr>promo_discount = Num 10, promo_type = ''percentage''\<rparr>\<rparr>)"
  by (simp add: handleApplyPromo_def promoCodes_def Let_def applyCode_def setPromoCode_def)

theorem handleApplyPromo_uppercase_lookup_witness:
  "ascii_toUpperCase ''save10'' = ''SAVE10''
   \<and> applyCode ascii_toUpperCase ''save10'' initial_cart_page =
       \<lparr>promoCode = ''save10'',
        appliedPromo = Some \<lparr>promo_discount = Num 10, promo_type = ''percentage''\<rparr>\<rparr>
   \<and> appliedPromo (applyCode ascii_toUpperCase ''FirstOrder'' initial_cart_page) =
       Some \<lparr>promo_discount = Num 15, promo_type = ''flat''\<rparr>
   \<and> appliedPromo (applyCode ascii_toUpperCase ''Save20'' initial_cart_page) =
       Some \<lparr>promo_discount = Num 20, promo_type = ''percentage''\<rparr>
   \<and> appliedPromo (applyCode ascii_toUpperCase ''welcome'' initial_cart_page) =
       Some \<lparr>promo_discount = Num 5, promo_type = ''percentage''\<rparr>
   \<and> handleApplyPromo ascii_toUpperCase (setPromoCode ''save30'' initial_cart_page) =
       (Invalid_promo_code, \<lparr>promoCode = ''save30'', appliedPromo = None\<rparr>)"
proof -
  have h: "ascii_toUpperCase ''save10'' = ''SAVE10''" by (simp add: case_simps)
  have u: "ascii_toUpperCase ''FirstOrder'' = ''FIRSTORDER''"
    "ascii_toUpperCase ''Save20'' = ''SAVE20''" "ascii_toUpperCase ''welcome'' = ''WELCOME''"
    "ascii_toUpperCase ''save30'' = ''SAVE30''"
    by (simp_all add: case_simps)
  have e: "appliedPromo (applyCode ascii_toUpperCase ''FirstOrder'' initial_cart_page) =
       Some \<lparr>promo_discount = Num 15, promo_type = ''flat''\<rparr>"
    "appliedPromo (applyCode ascii_toUpperCase ''Save20'' initial_cart_page) =
       Some \<lparr>promo_discount = Num 20, promo_type = ''percentage''\<rparr>"
    "appliedPromo (applyCode ascii_toUpperCase ''welcome'' initial_cart_page) =
       Some \<lparr>promo_discount = Num 5, promo_type = ''percentage''\<rparr>"
    "handleApplyPromo ascii_toUpperCase (setPromoCode ''save30'' initial_cart_page) =
       (Invalid_promo_code, \<lparr>promoCode = ''save30'', appliedPromo = None\<rparr>)"
    by (simp_all add: applyCode_def handleApplyPromo_def setPromoCode_def promoCodes_def
        initial_cart_page_def u)
  from h e handleApplyPromo_uppercase_lookup [where toUpperCase = ascii_toUpperCase
      and st = initial_cart_page]
  show ?thesis by blast
qed

text \<open>
  C4. For every cart, every state of the cart page and every entry whose upper case is not
  a key of the promo table: applying the entry leaves no promo applied, whatever was
  applied before, and the discount is 0; and applying any code after that gives the state,
  and the amounts, that the same code gives on a page where no promo was ever applied.
\<close>

theorem invalid_promo_resets:
  assumes "toUpperCase bad \<notin> fst ` set promoCodes"
  shows "appliedPromo (applyCode toUpperCase bad st) = None
       \<and> discount (cartPricing c (appliedPromo (applyCode toUpperCase bad st))) = Num 0
       \<and> applyCode toUpperCase code (applyCode toUpperCase bad st)
           = applyCode toUpperCase code initial_cart_page
       \<and> cartPricing c (appliedPromo (applyCode toUpperCase code (applyCode toUpperCase bad st)))
           = cartPricing c (appliedPromo (applyCode toUpperCase code initial_cart_page))"
proof -
  from assms have n: "map_of promoCodes (toUpperCase bad) = None"
    by (simp add: map_of_eq_None_iff)
  have a: "appliedPromo (applyCode toUpperCase bad st) = None"
    by (simp add: applyCode_def handleApplyPromo_def setPromoCode_def n)
  have b: "applyCode toUpperCase code st' = applyCode toUpperCase code initial_cart_page" for st'
    by (cases "map_of promoCodes (toUpperCase code)")
       (simp_all add: applyCode_def handleApplyPromo_def setPromoCode_def initial_cart_page_def)
  show ?thesis
    using a b [of "applyCode toUpperCase bad st"]
    by (simp add: cartPricing_def promo_amount_def Let_def)
qed

theorem invalid_promo_resets_witness:
  "ascii_toUpperCase ''bogus'' \<notin> fst ` set promoCodes
   \<and> appliedPromo (applyCode ascii_toUpperCase ''bogus''
        (applyCode ascii_toUpperCase ''SAVE10'' initial_cart_page)) = None
   \<and> discount (cartPricing [] (appliedPromo (applyCode ascii_toUpperCase ''bogus''
        (applyCode ascii_toUpperCase ''SAVE10'' initial_cart_page)))) = Num 0
   \<and> applyCode ascii_toUpperCase ''SAVE20''
        (applyCode ascii_toUpperCase ''bogus''
           (applyCode ascii_toUpperCase ''SAVE10'' initial_cart_page))
       = applyCode ascii_toUpperCase ''SAVE20'' initial_cart_page"
proof -
  have h: "ascii_toUpperCase ''bogus'' \<notin> fst ` set promoCodes"
    by (simp add: promoCodes_def case_simps)
  show ?thesis
    using h invalid_promo_resets [where toUpperCase = ascii_toUpperCase and bad = "''bogus''"
        and st = "applyCode ascii_toUpperCase ''SAVE10'' initial_cart_page" and c = "[]"
        and code = "''SAVE20''"]
    by blast
qed

section \<open>The catalog filter of the client\<close>

text \<open>
  C10. For every product list, query and category choice, and whatever \<^verbatim>\<open>toLowerCase\<close>
  does, \<open>filterProducts\<close> keeps the products that pass the category choice (any product
  for \<^verbatim>\<open>all\<close>, else the products whose category equals the choice exactly) and, of these,
  when the query is not empty, the products in whose lower-cased name, brand or
  description the lower-cased query occurs as a substring. The category field is not
  searched. On the sample list the query \<^verbatim>\<open>ROSE\<close> finds the two products named with
  \<^verbatim>\<open>Rose\<close>, \<^verbatim>\<open>paris\<close> finds the brand \<^verbatim>\<open>Fleur de Paris\<close>, \<^verbatim>\<open>SPICE\<close> finds a description,
  the category choice \<^verbatim>\<open>floral\<close> narrows \<^verbatim>\<open>ROSE\<close> no further and \<^verbatim>\<open>fresh\<close> empties it;
  for the query \<^verbatim>\<open>floral\<close> the client finds nothing, although two products have that
  category, and the search of the server returns both.
\<close>

theorem filterProducts_ignores_category_text:
  "filteredProducts (filterProducts toLowerCase q c s) =
     filter (\<lambda>p. q = [] \<or> occurs_lowered toLowerCase q (name p) \<or>
                  occurs_lowered toLowerCase q (brand p) \<or>
                  occurs_lowered toLowerCase q (description p))
       (filter (\<lambda>p. c = ''all'' \<or> category p = c) (products s))
   \<and> (p \<in> set (filteredProducts (filterProducts toLowerCase q c s))) =
       (p \<in> set (products s) \<and> (c = ''all'' \<or> category p = c) \<and>
        (q = [] \<or> occurs_lowered toLowerCase q (name p) \<or>
         occurs_lowered toLowerCase q (brand p) \<or> occurs_lowered toLowerCase q (description p)))
   \<and> filteredProducts (filterProducts ascii_toLowerCase ''ROSE'' ''all''
        (empty_app\<lparr>products := [citrus_dream, midnight_rose, rose_sample]\<rparr>))
       = [midnight_rose, rose_sample]
   \<and> filteredProducts (filterProducts ascii_toLowerCase ''paris'' ''all''
        (empty_app\<lparr>products := [citrus_dream, midnight_rose, rose_sample]\<rparr>))
       = [midnight_rose]
   \<and> filteredProducts (filterProducts ascii_toLowerCase ''SPICE'' ''all''
        (empty_app\<lparr>products := [citrus_dream, midnight_rose, rose_sample]\<rparr>))
       = [midnight_rose]
   \<and> filteredProducts (filterProducts ascii_toLowerCase ''ROSE'' ''floral''
        (empty_app\<lparr>products := [citrus_dream, midnight_rose, rose_sample]\<rparr>))
       = [midnight_rose, rose_sample]
   \<and> filteredProducts (filterProducts ascii_toLowerCase ''ROSE'' ''fresh''
        (empty_app\<lparr>products := [citrus_dream, midnight_rose, rose_sample]\<rparr>))
       = []
   \<and> filteredProducts (filterProducts ascii_toLowerCase [] ''fresh''
        (empty_app\<lparr>products := [citrus_dream, midnight_rose, rose_sample]\<rparr>))
       = [citrus_dream]
   \<and> filteredProducts (filterProducts ascii_toLowerCase ''floral'' ''all''
        (empty_app\<lparr>products := [citrus_dream, midnight_rose, rose_sample]\<rparr>))
       = []
   \<and> search ascii_caseless ''floral'' [citrus_dream, midnight_rose, rose_sample]
       = Some (Products [midnight_rose, rose_sample])"
proof -
  have g: "filteredProducts (filterProducts toLowerCase q c s) =
     filter (\<lambda>p. q = [] \<or> occurs_lowered toLowerCase q (name p) \<or>
                  occurs_lowered toLowerCase q (brand p) \<or>
                  occurs_lowered toLowerCase q (description p))
       (filter (\<lambda>p. c = ''all'' \<or> category p = c) (products s))"
    by (auto simp: filterProducts_def Let_def occurs_lowered_includes)
  then have m: "(p \<in> set (filteredProducts (filterProducts toLowerCase q c s))) =
       (p \<in> set (products s) \<and> (c = ''all'' \<or> category p = c) \<and>
        (q = [] \<or> occurs_lowered toLowerCase q (name p) \<or>
         occurs_lowered toLowerCase q (brand p) \<or> occurs_lowered toLowerCase q (description p)))"
    by auto
  have e: "filteredProducts (filterProducts ascii_toLowerCase ''ROSE'' ''all''
        (empty_app\<lparr>products := [citrus_dream, midnight_rose, rose_sample]\<rparr>))
       = [midnight_rose, rose_sample]"
    "filteredProducts (filterProducts ascii_toLowerCase ''paris'' ''all''
        (empty_app\<lparr>products := [citrus_dream, midnight_rose, rose_sample]\<rparr>))
       = [midnight_rose]"
    "filteredProducts (filterProducts ascii_toLowerCase ''SPICE'' ''all''
        (empty_app\<lparr>products := [citrus_dream, midnight_rose, rose_sample]\<rparr>))
       = [midnight_rose]"
    "filteredProducts (filterProducts ascii_toLowerCase ''ROSE'' ''floral''
        (empty_app\<lparr>products := [citrus_dream, midnight_rose, rose_sample]\<rparr>))
       = [midnight_rose, rose_sample]"
    "filteredProducts (filterProducts ascii_toLowerCase ''ROSE'' ''fresh''
        (empty_app\<lparr>products := [citrus_dream, midnight_rose, rose_sample]\<rparr>))
       = []"
    "filteredProducts (filterProducts ascii_toLowerCase [] ''fresh''
        (empty_app\<lparr>products := [citrus_dream, midnight_rose, rose_sample]\<rparr>))
       = [citrus_dream]"
    "filteredProducts (filterProducts ascii_toLowerCase ''floral'' ''all''
        (empty_app\<lparr>products := [citrus_dream, midnight_rose, rose_sample]\<rparr>))
       = []"
    by (simp_all add: filterProducts_def case_simps sample_simps)
  have f: "search ascii_caseless ''floral'' [citrus_dream, midnight_rose, rose_sample]
       = Some (Products [midnight_rose, rose_sample])"
    by (simp add: search_eval)
  from g m e f show ?thesis by blast
qed

section \<open>Evaluation of the sample carts\<close>

lemma spec_cart_values:
  "cartPricing spec_cart (Some save10) =
     \<lparr>subtotal = Num (1794947234786181 / 2 ^ 39), tax = Num (4595064921052623 / 2 ^ 44), shipping = Num 0,
      discount = Num (5743831151315779 / 2 ^ 44), total = Num (3518096580180915 / 2 ^ 40)\<rparr>
   \<and> num_add (num_add (Num (1794947234786181 / 2 ^ 39)) (Num (4595064921052623 / 2 ^ 44))) (Num 0) = Num (3877086027138151 / 2 ^ 40)"
proof -
  have f1: "lit 1600 = Num 1600"
    unfolding lit_def using rnd_cert [of 10 "1600" 7036874417766400] by simp
  have f2: "num_mul (Num 1600) (Num 2) = Num 3200"
    using rnd_cert [of 11 "1600 * 2" 7036874417766400] by (simp add: num_sub_def)
  have f3: "num_add (Num 0) (Num 3200) = Num 3200"
    using rnd_cert [of 11 "0 + 3200" 7036874417766400] by (simp add: num_sub_def)
  have f4: "lit (6499 / 100) = Num (4573264684106383 / 2 ^ 46)"
    unfolding lit_def using rnd_cert [of 6 "6499 / 100" 4573264684106383] by simp
  have f5: "num_mul (Num (4573264684106383 / 2 ^ 46)) (Num 1) = Num (4573264684106383 / 2 ^ 46)"
    using rnd_cert [of 6 "(4573264684106383 / 2 ^ 46) * 1" 4573264684106383] by (simp add: num_sub_def)
  have f6: "num_add (Num 3200) (Num (4573264684106383 / 2 ^ 46)) = Num (1794947234786181 / 2 ^ 39)"
    using rnd_cert [of 11 "3200 + (4573264684106383 / 2 ^ 46)" 7179788939144724] by (simp add: num_sub_def)
  have i: "price (with_quantity royal_oud (Num 2)) = lit 1600"
    "quantity (with_quantity royal_oud (Num 2)) = Num 2"
    "price (with_quantity citrus_dream (Num 1)) = lit (6499 / 100)"
    "quantity (with_quantity citrus_dream (Num 1)) = Num 1"
    by (simp_all add: item_simps)
  have sub: "cart_subtotal spec_cart = Num (1794947234786181 / 2 ^ 39)"
    unfolding cart_subtotal_def spec_cart_def by (simp only: foldl.simps i f1 f2 f3 f4 f5 f6)
  have g1: "lit (8 / 100) = Num (5764607523034235 / 2 ^ 56)"
    unfolding lit_def using rnd_cert [of "-4" "8 / 100" 5764607523034235] by simp
  have g2: "num_mul (Num (1794947234786181 / 2 ^ 39)) (Num (5764607523034235 / 2 ^ 56)) = Num (4595064921052623 / 2 ^ 44)"
    using rnd_cert [of 8 "(1794947234786181 / 2 ^ 39) * (5764607523034235 / 2 ^ 56)" 4595064921052623] by (simp add: num_sub_def)
  have g3: "num_mul (Num (1794947234786181 / 2 ^ 39)) (Num 10) = Num (8974736173930905 / 2 ^ 38)"
    using rnd_cert [of 14 "(1794947234786181 / 2 ^ 39) * 10" 8974736173930905] by (simp add: num_sub_def)
  have g4: "num_div (Num (8974736173930905 / 2 ^ 38)) (Num 100) = Num (5743831151315779 / 2 ^ 44)"
    using rnd_cert [of 8 "(8974736173930905 / 2 ^ 38) / 100" 5743831151315779] by (simp add: num_sub_def)
  have g5: "num_add (Num (1794947234786181 / 2 ^ 39)) (Num (4595064921052623 / 2 ^ 44)) = Num (3877086027138151 / 2 ^ 40)"
    using rnd_cert [of 11 "(1794947234786181 / 2 ^ 39) + (4595064921052623 / 2 ^ 44)" 7754172054276302] by (simp add: num_sub_def)
  have g6: "num_add (Num (3877086027138151 / 2 ^ 40)) (Num 0) = Num (3877086027138151 / 2 ^ 40)"
    using rnd_cert [of 11 "(3877086027138151 / 2 ^ 40) + 0" 7754172054276302] by (simp add: num_sub_def)
  have g7: "num_sub (Num (3877086027138151 / 2 ^ 40)) (Num (5743831151315779 / 2 ^ 44)) = Num (3518096580180915 / 2 ^ 40)"
    using rnd_cert [of 11 "(3877086027138151 / 2 ^ 40) - (5743831151315779 / 2 ^ 44)" 7036193160361830] by (simp add: num_sub_def)
  have sh: "num_gt (Num (1794947234786181 / 2 ^ 39)) (Num 100)" by simp
  have disc: "promo_amount (Num (1794947234786181 / 2 ^ 39)) (Some save10) = Num (5743831151315779 / 2 ^ 44)"
    unfolding promo_amount_def save10_def
    by (simp only: option.case promo.simps simp_thms if_True g1 g2 g3 g4 g5 g6 g7)
  have p: "cartPricing spec_cart (Some save10) =
     \<lparr>subtotal = Num (1794947234786181 / 2 ^ 39), tax = Num (4595064921052623 / 2 ^ 44), shipping = Num 0,
      discount = Num (5743831151315779 / 2 ^ 44), total = Num (3518096580180915 / 2 ^ 40)\<rparr>"
    unfolding cartPricing_def Let_def
    by (simp only: sub sh if_True disc g1 g2 g3 g4 g5 g6 g7)
  have q: "num_add (num_add (Num (1794947234786181 / 2 ^ 39)) (Num (4595064921052623 / 2 ^ 44))) (Num 0) = Num (3877086027138151 / 2 ^ 40)"
    by (simp only: g1 g2 g3 g4 g5 g6 g7)
  from p q show ?thesis by (rule conjI)
qed

lemma single_oud_cart_values:
  "cartPricing single_oud_cart None =
     \<lparr>subtotal = Num 1600, tax = Num 128, shipping = Num 0,
      discount = Num 0, total = Num 1728\<rparr>
   \<and> num_add (num_add (Num 1600) (Num 128)) (Num 0) = Num 1728"
proof -
  have f1: "lit 1600 = Num 1600"
    unfolding lit_def using rnd_cert [of 10 "1600" 7036874417766400] by simp
  have f2: "num_mul (Num 1600) (Num 1) = Num 1600"
    using rnd_cert [of 10 "1600 * 1" 7036874417766400] by (simp add: num_sub_def)
  have f3: "num_add (Num 0) (Num 1600) = Num 1600"
    using rnd_cert [of 10 "0 + 1600" 7036874417766400] by (simp add: num_sub_def)
  have i: "price (with_quantity royal_oud (Num 1)) = lit 1600"
    "quantity (with_quantity royal_oud (Num 1)) = Num 1"
    by (simp_all add: item_simps)
  have sub: "cart_subtotal single_oud_cart = Num 1600"
    unfolding cart_subtotal_def single_oud_cart_def by (simp only: foldl.simps i f1 f2 f3)
  have g1: "lit (8 / 100) = Num (5764607523034235 / 2 ^ 56)"
    unfolding lit_def using rnd_cert [of "-4" "8 / 100" 5764607523034235] by simp
  have g2: "num_mul (Num 1600) (Num (5764607523034235 / 2 ^ 56)) = Num 128"
    using rnd_cert [of 7 "1600 * (5764607523034235 / 2 ^ 56)" 4503599627370496] by (simp add: num_sub_def)
  have g3: "num_add (Num 1600) (Num 128) = Num 1728"
    using rnd_cert [of 10 "1600 + 128" 7599824371187712] by (simp add: num_sub_def)
  have g4: "num_add (Num 1728) (Num 0) = Num 1728"
    using rnd_cert [of 10 "1728 + 0" 7599824371187712] by (simp add: num_sub_def)
  have g5: "num_sub (Num 1728) (Num 0) = Num 1728"
    using rnd_cert [of 10 "1728 - 0" 7599824371187712] by (simp add: num_sub_def)
  have sh: "num_gt (Num 1600) (Num 100)" by simp
  have disc: "promo_amount (Num 1600) None = Num 0"
    by (simp add: promo_amount_def)
  have p: "cartPricing single_oud_cart None =
     \<lparr>subtotal = Num 1600, tax = Num 128, shipping = Num 0,
      discount = Num 0, total = Num 1728\<rparr>"
    unfolding cartPricing_def Let_def
    by (simp only: sub sh if_True disc g1 g2 g3 g4 g5)
  have q: "num_add (num_add (Num 1600) (Num 128)) (Num 0) = Num 1728"
    by (simp only: g1 g2 g3 g4 g5)
  from p q show ?thesis by (rule conjI)
qed



lemma three_cart_subtotal:
  "cart_subtotal three_cart = Num (8443193770157015 / 2 ^ 45)"
proof -
  have f1: "lit (6499 / 100) = Num (4573264684106383 / 2 ^ 46)"
    unfolding lit_def using rnd_cert [of 6 "6499 / 100" 4573264684106383] by simp
  have f2: "num_mul (Num (4573264684106383 / 2 ^ 46)) (Num 1) = Num (4573264684106383 / 2 ^ 46)"
    using rnd_cert [of 6 "(4573264684106383 / 2 ^ 46) * 1" 4573264684106383] by (simp add: num_sub_def)
  have f3: "num_add (Num 0) (Num (4573264684106383 / 2 ^ 46)) = Num (4573264684106383 / 2 ^ 46)"
    using rnd_cert [of 6 "0 + (4573264684106383 / 2 ^ 46)" 4573264684106383] by (simp add: num_sub_def)
  have f4: "lit (11999 / 100) = Num (8443545613877903 / 2 ^ 46)"
    unfolding lit_def using rnd_cert [of 6 "11999 / 100" 8443545613877903] by simp
  have f5: "num_mul (Num (8443545613877903 / 2 ^ 46)) (Num 1) = Num (8443545613877903 / 2 ^ 46)"
    using rnd_cert [of 6 "(8443545613877903 / 2 ^ 46) * 1" 8443545613877903] by (simp add: num_sub_def)
  have f6: "num_add (Num (4573264684106383 / 2 ^ 46)) (Num (8443545613877903 / 2 ^ 46)) = Num (6508405148992143 / 2 ^ 45)"
    using rnd_cert [of 7 "(4573264684106383 / 2 ^ 46) + (8443545613877903 / 2 ^ 46)" 6508405148992143] by (simp add: num_sub_def)
  have f7: "lit (5499 / 100) = Num (7739154484659487 / 2 ^ 47)"
    unfolding lit_def using rnd_cert [of 5 "5499 / 100" 7739154484659487] by simp
  have f8: "num_mul (Num (7739154484659487 / 2 ^ 47)) (Num 1) = Num (7739154484659487 / 2 ^ 47)"
    using rnd_cert [of 5 "(7739154484659487 / 2 ^ 47) * 1" 7739154484659487] by (simp add: num_sub_def)
  have f9: "num_add (Num (6508405148992143 / 2 ^ 45)) (Num (7739154484659487 / 2 ^ 47)) = Num (8443193770157015 / 2 ^ 45)"
    using rnd_cert [of 7 "(6508405148992143 / 2 ^ 45) + (7739154484659487 / 2 ^ 47)" 8443193770157015] by (simp add: num_sub_def)
  have i: "price (with_quantity citrus_dream (Num 1)) = lit (6499 / 100)"
    "quantity (with_quantity citrus_dream (Num 1)) = Num 1"
    "price (with_quantity midnight_rose (Num 1)) = lit (11999 / 100)"
    "quantity (with_quantity midnight_rose (Num 1)) = Num 1"
    "price (with_quantity ocean_breeze (Num 1)) = lit (5499 / 100)"
    "quantity (with_quantity ocean_breeze (Num 1)) = Num 1"
    by (simp_all add: item_simps)
  have sub: "cart_subtotal three_cart = Num (8443193770157015 / 2 ^ 45)"
    unfolding cart_subtotal_def three_cart_def by (simp only: foldl.simps i f1 f2 f3 f4 f5 f6 f7 f8 f9)
  show ?thesis by (rule sub)
qed

lemma three_cart_reordered_subtotal:
  "cart_subtotal three_cart_reordered = Num (4221596885078507 / 2 ^ 44)"
proof -
  have f1: "lit (6499 / 100) = Num (4573264684106383 / 2 ^ 46)"
    unfolding lit_def using rnd_cert [of 6 "6499 / 100" 4573264684106383] by simp
  have f2: "num_mul (Num (4573264684106383 / 2 ^ 46)) (Num 1) = Num (4573264684106383 / 2 ^ 46)"
    using rnd_cert [of 6 "(4573264684106383 / 2 ^ 46) * 1" 4573264684106383] by (simp add: num_sub_def)
  have f3: "num_add (Num 0) (Num (4573264684106383 / 2 ^ 46)) = Num (4573264684106383 / 2 ^ 46)"
    using rnd_cert [of 6 "0 + (4573264684106383 / 2 ^ 46)" 4573264684106383] by (simp add: num_sub_def)
  have f4: "lit (5499 / 100) = Num (7739154484659487 / 2 ^ 47)"
    unfolding lit_def using rnd_cert [of 5 "5499 / 100" 7739154484659487] by simp
  have f5: "num_mul (Num (7739154484659487 / 2 ^ 47)) (Num 1) = Num (7739154484659487 / 2 ^ 47)"
    using rnd_cert [of 5 "(7739154484659487 / 2 ^ 47) * 1" 7739154484659487] by (simp add: num_sub_def)
  have f6: "num_add (Num (4573264684106383 / 2 ^ 46)) (Num (7739154484659487 / 2 ^ 47)) = Num (4221420963218063 / 2 ^ 45)"
    using rnd_cert_tie [of 6 "(4573264684106383 / 2 ^ 46) + (7739154484659487 / 2 ^ 47)" 8442841926436126 8442841926436126] by (simp add: num_sub_def)
  have f7: "lit (11999 / 100) = Num (8443545613877903 / 2 ^ 46)"
    unfolding lit_def using rnd_cert [of 6 "11999 / 100" 8443545613877903] by simp
  have f8: "num_mul (Num (8443545613877903 / 2 ^ 46)) (Num 1) = Num (8443545613877903 / 2 ^ 46)"
    using rnd_cert [of 6 "(8443545613877903 / 2 ^ 46) * 1" 8443545613877903] by (simp add: num_sub_def)
  have f9: "num_add (Num (4221420963218063 / 2 ^ 45)) (Num (8443545613877903 / 2 ^ 46)) = Num (4221596885078507 / 2 ^ 44)"
    using rnd_cert_tie [of 7 "(4221420963218063 / 2 ^ 45) + (8443545613877903 / 2 ^ 46)" 8443193770157014 8443193770157014] by (simp add: num_sub_def)
  have i: "price (with_quantity citrus_dream (Num 1)) = lit (6499 / 100)"
    "quantity (with_quantity citrus_dream (Num 1)) = Num 1"
    "price (with_quantity ocean_breeze (Num 1)) = lit (5499 / 100)"
    "quantity (with_quantity ocean_breeze (Num 1)) = Num 1"
    "price (with_quantity midnight_rose (Num 1)) = lit (11999 / 100)"
    "quantity (with_quantity midnight_rose (Num 1)) = Num 1"
    by (simp_all add: item_simps)
  have sub: "cart_subtotal three_cart_reordered = Num (4221596885078507 / 2 ^ 44)"
    unfolding cart_subtotal_def three_cart_reordered_def by (simp only: foldl.simps i f1 f2 f3 f4 f5 f6 f7 f8 f9)
  show ?thesis by (rule sub)
qed

lemma lit_3264_99: "lit (326499 / 100) = Num (1794947234786181 / 2 ^ 39)"
  unfolding lit_def using rnd_cert [of 11 "326499 / 100" 7179788939144724] by simp

lemma lit_261_19919999999996: "lit (26119919999999996 / 100000000000000) = Num (4595064921052623 / 2 ^ 44)"
  unfolding lit_def using rnd_cert [of 8 "26119919999999996 / 100000000000000" 4595064921052623] by simp

lemma lit_326_49899999999997: "lit (32649899999999997 / 100000000000000) = Num (5743831151315779 / 2 ^ 44)"
  unfolding lit_def using rnd_cert [of 8 "32649899999999997 / 100000000000000" 5743831151315779] by simp

lemma lit_3199_6902: "lit (31996902 / 10000) = Num (3518096580180915 / 2 ^ 40)"
  unfolding lit_def using rnd_cert [of 11 "31996902 / 10000" 7036193160361830] by simp

lemma lit_261_1992: "lit (2611992 / 10000) = Num (287191557565789 / 2 ^ 40)"
  unfolding lit_def using rnd_cert [of 8 "2611992 / 10000" 4595064921052624] by simp

lemma lit_326_499: "lit (326499 / 1000) = Num (1435957787828945 / 2 ^ 42)"
  unfolding lit_def using rnd_cert [of 8 "326499 / 1000" 5743831151315780] by simp

lemma lit_239_97: "lit (23997 / 100) = Num (8443193770157015 / 2 ^ 45)"
  unfolding lit_def using rnd_cert [of 7 "23997 / 100" 8443193770157015] by simp

lemma lit_239_96999999999997: "lit (23996999999999997 / 100000000000000) = Num (4221596885078507 / 2 ^ 44)"
  unfolding lit_def using rnd_cert [of 7 "23996999999999997 / 100000000000000" 8443193770157014] by simp

lemma lit_1600: "lit 1600 = Num 1600"
  unfolding lit_def using rnd_cert [of 10 "1600" 7036874417766400] by simp


section \<open>Properties of the pricing computation\<close>



lemma cart_subtotal_snoc:
  "cart_subtotal (c @ [item]) = num_add (cart_subtotal c) (num_mul (price item) (quantity item))"
  by (simp add: cart_subtotal_def)

lemma is_whole_cases:
  assumes "is_whole x"
  obtains n where "x = Num (of_int n)" "0 \<le> n"
proof (cases x)
  case (Num r)
  with assms have "r = of_int \<lfloor>r\<rfloor>" "0 \<le> r" by simp_all
  then have "x = Num (of_int \<lfloor>r\<rfloor>)" "0 \<le> \<lfloor>r\<rfloor>" using Num by simp_all
  then show ?thesis by (rule that)
qed (use assms in simp_all)

lemma whole_cart_subtotal:
  assumes "whole_cart c" "exact_subtotal c \<le> 2 ^ 53"
  shows "cart_subtotal c = Num (exact_subtotal c) \<and> (\<exists>n\<ge>0. exact_subtotal c = of_int n)"
  using assms
proof (induction c rule: rev_induct)
  case Nil
  have "exact_subtotal [] = of_int 0" by (simp add: exact_subtotal_def)
  then show ?case by (auto simp: cart_subtotal_def exact_subtotal_def)
next
  case (snoc item c)
  from snoc.prems(1) have wc: "whole_cart c" and wp: "is_whole (price item)"
    and wq: "is_whole (quantity item)" by (simp_all add: whole_cart_def)
  from wp obtain p where p: "price item = Num (of_int p)" "0 \<le> p" by (rule is_whole_cases)
  from wq obtain q where q: "quantity item = Num (of_int q)" "0 \<le> q" by (rule is_whole_cases)
  have ex: "exact_subtotal (c @ [item]) = exact_subtotal c + of_int (p * q)"
    by (simp add: exact_subtotal_def p q)
  have pq0: "0 \<le> p * q" using p q by simp
  have nn: "0 \<le> exact_subtotal c"
    unfolding exact_subtotal_def using wc
  proof (induction c)
    case Nil
    then show ?case by simp
  next
    case (Cons a c)
    then have "is_whole (price a)" "is_whole (quantity a)" by (simp_all add: whole_cart_def)
    then have "0 \<le> num_val (price a) * num_val (quantity a)"
      by (cases "price a"; cases "quantity a") simp_all
    moreover from Cons have "0 \<le> (\<Sum>item\<leftarrow>c. num_val (price item) * num_val (quantity item))"
      by (simp add: whole_cart_def)
    ultimately show ?case by simp
  qed
  have pqr: "0 \<le> (of_int (p * q) :: rat)" using pq0 by (simp only: of_int_0_le_iff)
  from snoc.prems(2) ex pqr have le1: "exact_subtotal c \<le> 2 ^ 53" by linarith
  from snoc.prems(2) ex nn have le2: "(of_int (p * q) :: rat) \<le> 2 ^ 53" by linarith
  from snoc.IH [OF wc le1] obtain n where ih: "cart_subtotal c = Num (exact_subtotal c)"
    and n: "0 \<le> n" "exact_subtotal c = of_int n" by blast
  have m: "num_mul (price item) (quantity item) = Num (of_int (p * q))"
    using rnd_whole_nat [OF pq0 le2] by (simp add: p q)
  have sum: "exact_subtotal (c @ [item]) = of_int (n + p * q)" by (simp add: ex n)
  have n0: "0 \<le> n + p * q" using n pq0 by simp
  have "(of_int (n + p * q) :: rat) \<le> 2 ^ 53" using snoc.prems(2) by (simp only: sum)
  from rnd_whole_nat [OF n0 this]
  have "num_add (Num (of_int n)) (Num (of_int (p * q))) = Num (of_int (n + p * q))"
    by simp
  then have "cart_subtotal (c @ [item]) = Num (exact_subtotal (c @ [item]))"
    by (simp only: cart_subtotal_snoc ih m n sum)
  with sum n0 show ?case by blast
qed

lemma exact_subtotal_mset:
  "exact_subtotal c = sum_mset (image_mset (\<lambda>item. num_val (price item) * num_val (quantity item)) (mset c))"
  by (simp add: exact_subtotal_def flip: sum_mset_sum_list)

lemma whole_cart_set: "whole_cart c = (\<forall>item\<in>set c. is_whole (price item) \<and> is_whole (quantity item))"
  by (simp add: whole_cart_def list_all_iff)

lemma whole_cart_permutation:
  assumes "whole_cart c" "exact_subtotal c \<le> 2 ^ 53" "mset c' = mset c"
  shows "cartPricing c' ap = cartPricing c ap"
proof -
  have e: "exact_subtotal c' = exact_subtotal c" by (simp only: exact_subtotal_mset assms(3))
  have "set c' = set c" using assms(3) by (rule mset_eq_setD)
  with assms(1) have w: "whole_cart c'" by (simp add: whole_cart_set)
  from whole_cart_subtotal [OF assms(1,2)] have 1: "cart_subtotal c = Num (exact_subtotal c)" by simp
  from assms(2) have "exact_subtotal c' \<le> 2 ^ 53" by (simp only: e)
  from whole_cart_subtotal [OF w this] have 2: "cart_subtotal c' = Num (exact_subtotal c)"
    by (simp add: e)
  show ?thesis by (simp add: cartPricing_def 1 2)
qed


lemma getCartTotal_subtotal: "getCartTotal s = cart_subtotal (cart s)"
  by (simp add: getCartTotal_def cart_subtotal_def)

lemma subtotal_cartPricing: "subtotal (cartPricing c ap) = cart_subtotal c"
  by (simp add: cartPricing_def Let_def)

lemma apply_save10:
  "appliedPromo (applyCode ascii_toUpperCase ''SAVE10'' initial_cart_page) = Some save10"
  by (simp add: applyCode_def handleApplyPromo_def setPromoCode_def promoCodes_def save10_def
      initial_cart_page_def case_simps)

text \<open>Every state that \<open>handleApplyPromo\<close> leaves behind is one of \<open>promo_states\<close>.\<close>

lemma handleApplyPromo_promo_states:
  "appliedPromo (snd (handleApplyPromo toUpperCase st)) \<in> set promo_states"
proof (cases "map_of promoCodes (toUpperCase (promoCode st))")
  case None
  then show ?thesis by (simp add: handleApplyPromo_def promo_states_def)
next
  case (Some pr)
  then have "(toUpperCase (promoCode st), pr) \<in> set promoCodes" by (rule map_of_SomeD)
  then have "Some pr \<in> set (map (\<lambda>kv. Some (snd kv)) promoCodes)" by force
  with Some show ?thesis by (simp add: handleApplyPromo_def promo_states_def)
qed

section \<open>Pricing and checkout\<close>



text \<open>
  C3, as the code has it. With the promo code \<^verbatim>\<open>SAVE10\<close> applied, the cart of two items at
  1600 and one at 64.99 gives the subtotal 3264.99, the tax 261.19919999999996, the
  shipping 0, the discount 326.49899999999997 and the total 3199.6902, each decimal read
  as the binary64 number nearest to it. The tax and the discount are one unit in the last
  place, \<open>2^-44\<close>, below the numbers 261.1992 and 326.499.
\<close>

theorem spec_example_pricing:
  "cartPricing spec_cart (appliedPromo (applyCode ascii_toUpperCase ''SAVE10'' initial_cart_page)) =
     \<lparr>subtotal = lit (326499 / 100),
      tax = lit (26119919999999996 / 100000000000000),
      shipping = Num 0,
      discount = lit (32649899999999997 / 100000000000000),
      total = lit (31996902 / 10000)\<rparr>
   \<and> num_val (lit (2611992 / 10000)) - num_val (lit (26119919999999996 / 100000000000000))
       = 1 / 2 ^ 44
   \<and> num_val (lit (326499 / 1000)) - num_val (lit (32649899999999997 / 100000000000000))
       = 1 / 2 ^ 44"
proof -
  have "cartPricing spec_cart (appliedPromo (applyCode ascii_toUpperCase ''SAVE10'' initial_cart_page)) =
     \<lparr>subtotal = lit (326499 / 100),
      tax = lit (26119919999999996 / 100000000000000),
      shipping = Num 0,
      discount = lit (32649899999999997 / 100000000000000),
      total = lit (31996902 / 10000)\<rparr>"
    using spec_cart_values
    by (simp only: apply_save10 lit_3264_99 lit_261_19919999999996 lit_326_49899999999997
        lit_3199_6902)
  moreover have "num_val (lit (2611992 / 10000))
      - num_val (lit (26119919999999996 / 100000000000000)) = 1 / 2 ^ 44"
    by (simp only: lit_261_1992 lit_261_19919999999996 num_val.simps) simp
  moreover have "num_val (lit (326499 / 1000))
      - num_val (lit (32649899999999997 / 100000000000000)) = 1 / 2 ^ 44"
    by (simp only: lit_326_499 lit_326_49899999999997 num_val.simps) simp
  ultimately show ?thesis by blast
qed

text \<open>
  C3 as stated fails: the tax is not the number 261.1992 and the discount is not the
  number 326.499.
\<close>

theorem spec_example_counterexample:
  "tax (cartPricing spec_cart (appliedPromo (applyCode ascii_toUpperCase ''SAVE10'' initial_cart_page)))
     \<noteq> lit (2611992 / 10000)
   \<and> discount (cartPricing spec_cart (appliedPromo (applyCode ascii_toUpperCase ''SAVE10'' initial_cart_page)))
     \<noteq> lit (326499 / 1000)"
proof -
  have t: "tax (cartPricing spec_cart (Some save10)) = Num (4595064921052623 / 2 ^ 44)"
    and d: "discount (cartPricing spec_cart (Some save10)) = Num (5743831151315779 / 2 ^ 44)"
    using spec_cart_values by simp_all
  have "Num (4595064921052623 / 2 ^ 44) \<noteq> lit (2611992 / 10000)"
    by (simp only: lit_261_1992) simp
  moreover have "Num (5743831151315779 / 2 ^ 44) \<noteq> lit (326499 / 1000)"
    by (simp only: lit_326_499) simp
  ultimately show ?thesis by (simp only: apply_save10 t d) simp
qed

text \<open>
  C5, as the code has it. For every cart whose prices and quantities are whole numbers,
  none negative, and whose subtotal in exact arithmetic is at most \<open>2^53\<close>, the subtotal
  is that exact sum, and subtotal, tax, shipping, discount and total are the same on
  every permutation of the cart, whatever the promo state.
\<close>

theorem whole_cart_reordering:
  assumes "whole_cart c" and "exact_subtotal c \<le> 2 ^ 53" and "mset c' = mset c"
  shows "cartPricing c' ap = cartPricing c ap
       \<and> subtotal (cartPricing c ap) = Num (exact_subtotal c)"
proof -
  have "cartPricing c' ap = cartPricing c ap"
    using assms by (rule whole_cart_permutation)
  moreover have "subtotal (cartPricing c ap) = Num (exact_subtotal c)"
    using whole_cart_subtotal [OF assms(1,2)] by (simp add: subtotal_cartPricing)
  ultimately show ?thesis by (rule conjI)
qed

theorem whole_cart_reordering_witness:
  "whole_cart whole_price_cart \<and> exact_subtotal whole_price_cart \<le> 2 ^ 53
   \<and> mset (rev whole_price_cart) = mset whole_price_cart
   \<and> cartPricing (rev whole_price_cart) (Some save10) = cartPricing whole_price_cart (Some save10)
   \<and> subtotal (cartPricing whole_price_cart (Some save10)) = Num 32"
proof -
  have h1: "whole_cart whole_price_cart"
    by (simp add: whole_cart_def whole_price_cart_def item_simps)
  have e: "exact_subtotal whole_price_cart = 32"
    by (simp add: exact_subtotal_def whole_price_cart_def item_simps)
  then have h2: "exact_subtotal whole_price_cart \<le> 2 ^ 53" by simp
  have h3: "mset (rev whole_price_cart) = mset whole_price_cart" by simp
  from whole_cart_reordering [OF h1 h2 h3, of "Some save10"] h1 h2 h3 e
  show ?thesis by simp
qed

text \<open>
  C5 as stated fails. Three sample products at 64.99, 119.99 and 54.99, one of each: in
  this order the subtotal is 239.97, and with the last two exchanged it is
  239.96999999999997.
\<close>

theorem reordering_counterexample:
  "mset three_cart_reordered = mset three_cart
   \<and> subtotal (cartPricing three_cart None) = lit (23997 / 100)
   \<and> subtotal (cartPricing three_cart_reordered None) = lit (23996999999999997 / 100000000000000)
   \<and> subtotal (cartPricing three_cart None) \<noteq> subtotal (cartPricing three_cart_reordered None)"
proof -
  have m: "mset three_cart_reordered = mset three_cart"
    by (simp add: three_cart_def three_cart_reordered_def add_mset_commute)
  have a: "subtotal (cartPricing three_cart None) = Num (8443193770157015 / 2 ^ 45)"
    by (simp only: subtotal_cartPricing three_cart_subtotal)
  have b: "subtotal (cartPricing three_cart_reordered None) = Num (4221596885078507 / 2 ^ 44)"
    by (simp only: subtotal_cartPricing three_cart_reordered_subtotal)
  have ne: "Num (8443193770157015 / 2 ^ 45) \<noteq> Num (4221596885078507 / 2 ^ 44)" by simp
  from m a b ne show ?thesis
    by (simp only: lit_239_97 lit_239_96999999999997) simp
qed

text \<open>
  C1. The order that the checkout page submits carries, as \<open>totalAmount\<close>, the subtotal
  of the cart: the sum of price times quantity, without tax, shipping or discount,
  whatever promo is applied on the cart page. For the cart of one item at 1600 the cart
  page shows the total 1728 and the checkout submits 1600.
\<close>

theorem checkout_submits_subtotal:
  "totalAmount (checkoutOrder f s) = subtotal (cartPricing (cart s) ap)
   \<and> totalAmount (checkoutOrder sample_form (empty_app\<lparr>cart := single_oud_cart\<rparr>)) = Num 1600
   \<and> total (cartPricing single_oud_cart None) = Num 1728"
proof -
  have g: "totalAmount (checkoutOrder f s) = subtotal (cartPricing (cart s) ap)" for f s ap
    by (simp add: checkoutOrder_def orderData_def parseFloat_def getCartTotal_subtotal
        subtotal_cartPricing)
  have v: "subtotal (cartPricing single_oud_cart None) = Num 1600"
    "total (cartPricing single_oud_cart None) = Num 1728"
    using single_oud_cart_values by simp_all
  have "totalAmount (checkoutOrder sample_form (empty_app\<lparr>cart := single_oud_cart\<rparr>)) = Num 1600"
    using g [of sample_form "empty_app\<lparr>cart := single_oud_cart\<rparr>" None] v(1) by simp
  with g v(2) show ?thesis by blast
qed

end
